theory Spec2Isabelle
  imports Complex_Main "HOL-Library.Multiset"
begin

section \<open>Data model\<close>

text \<open>
  The repository holds two variants of one program: \<^verbatim>\<open>kaleidoscope.go\<close> (the
  builder \<^verbatim>\<open>getData\<close>, the handlers \<^verbatim>\<open>makeGlobalHandler\<close> and
  \<^verbatim>\<open>makeCountryHandler\<close>) and a second file (the builder \<^verbatim>\<open>getMirrorInfo\<close>,
  the handler \<^verbatim>\<open>redirector\<close> with its selectors). Where both files declare a
  name, the model keeps it for \<^verbatim>\<open>kaleidoscope.go\<close> and appends \<open>2\<close> for the
  second file.

  A \<^verbatim>\<open>float64\<close> read from JSON is a finite number; the code only compares such
  numbers, so they are reals here, and so is the threshold read from the command line.
  A \<^verbatim>\<open>*Mirror\<close> may be nil (a JSON \<^verbatim>\<open>null\<close> in the array decodes to a nil
  pointer), so a pointer is a \<open>Mirror option\<close>. Time stamps are opaque integers.
\<close>

record Mirror =
  Protocol :: string
  URL :: string
  Country :: string
  LastSync :: "int option"
  Delay :: int
  Score :: real
  Completion :: real
  CountryCode :: string
  DurStdDev :: real
  DurAvg :: real

text \<open>The five check fields that both variants of \<^verbatim>\<open>MirrorStatus\<close> start with.\<close>

record StatusFields =
  Cutoff :: int
  CheckFrequency :: int
  NumChecks :: int
  LastCheck :: int
  Version :: int

record MirrorStatus = StatusFields +
  URLs :: "Mirror option list"

record MirrorStatus2 = StatusFields +
  Global :: "Mirror option list"
  Countries :: "string \<rightharpoonup> Mirror option list"

record config =
  url :: string
  interval :: int
  minCompletion :: real

record config2 = config +
  host :: string
  port :: int

datatype fetch_error = Transport | Decode

datatype panic = NilDereference | IndexOutOfRange | InterfaceConversion | IntnInvalidArgument

text \<open>
  What a call leaves behind: a value, the error of an \<^verbatim>\<open>(x, err)\<close> return, or a
  panic.
\<close>

datatype ('e, 'a) outcome = Ok 'a | Err 'e | Panic panic

section \<open>The builder of \<^verbatim>\<open>kaleidoscope.go\<close>\<close>

text \<open>
  The loop of \<^verbatim>\<open>getData\<close> over \<^verbatim>\<open>m.URLs\<close>, with its three variables
  \<^verbatim>\<open>newURLs\<close>, \<^verbatim>\<open>httpCount\<close> and \<^verbatim>\<open>completeCount\<close>. Reading
  \<^verbatim>\<open>url.Protocol\<close> through a nil pointer panics: the result is \<open>None\<close>.
\<close>

fun getData_loop ::
  "real \<Rightarrow> Mirror option list \<Rightarrow> Mirror option list \<times> nat \<times> nat
     \<Rightarrow> (Mirror option list \<times> nat \<times> nat) option" where
  "getData_loop minC [] acc = Some acc"
| "getData_loop minC (None # rest) acc = None"
| "getData_loop minC (Some u # rest) (newURLs, httpCount, completeCount) =
     (let isHTTP = (Protocol u = ''http'');
          httpCount' = (if isHTTP then httpCount + 1 else httpCount);
          isComplete = (Completion u \<ge> minC);
          completeCount' = (if isComplete then completeCount + 1 else completeCount);
          newURLs' = (if isHTTP \<and> isComplete then newURLs @ [Some u] else newURLs)
      in getData_loop minC rest (newURLs', httpCount', completeCount'))"

text \<open>
  \<^verbatim>\<open>getData\<close>. The answer of the network and of the JSON decoder is the argument
  \<open>resp\<close>: \<open>Inl Transport\<close> when \<^verbatim>\<open>http.Get\<close> fails, \<open>Inl Decode\<close> when
  \<^verbatim>\<open>Decode\<close> fails, \<open>Inr m\<close> for the decoded structure. The counters only feed
  the log line.
\<close>

definition getData :: "'a config_scheme \<Rightarrow> fetch_error + MirrorStatus \<Rightarrow> (fetch_error, MirrorStatus) outcome" where
  "getData c resp =
     (case resp of
        Inl e \<Rightarrow> Err e
      | Inr m \<Rightarrow>
          (case getData_loop (minCompletion c) (URLs m) ([], 0, 0) of
             None \<Rightarrow> Panic NilDereference
           | Some (newURLs, httpCount, completeCount) \<Rightarrow> Ok (m\<lparr>URLs := newURLs\<rparr>)))"

section \<open>The builder of the second file\<close>

text \<open>\<^verbatim>\<open>ByScore.Less\<close>, on the two records the indices name.\<close>

definition ByScore_Less :: "Mirror \<Rightarrow> Mirror \<Rightarrow> bool" where
  "ByScore_Less a b = (Score a < Score b)"

text \<open>\<^verbatim>\<open>sort.Reverse\<close>: the same data with \<^verbatim>\<open>Less(i, j)\<close> answered by \<^verbatim>\<open>Less(j, i)\<close>.\<close>

definition sort_Reverse :: "('a \<Rightarrow> 'a \<Rightarrow> bool) \<Rightarrow> 'a \<Rightarrow> 'a \<Rightarrow> bool" where
  "sort_Reverse lt a b = lt b a"

text \<open>
  \<^verbatim>\<open>sort.Stable\<close> is the standard library's: it sorts in ascending order of
  \<^verbatim>\<open>Less\<close> and keeps the order of elements neither of which is less than the other.
  An insertion sort that puts an element in front of the first one that is not less than
  it computes that list.
\<close>

fun insert_Stable :: "('a \<Rightarrow> 'a \<Rightarrow> bool) \<Rightarrow> 'a \<Rightarrow> 'a list \<Rightarrow> 'a list" where
  "insert_Stable lt x [] = [x]"
| "insert_Stable lt x (y # ys) =
     (if lt y x then y # insert_Stable lt x ys else x # y # ys)"

definition sort_Stable :: "('a \<Rightarrow> 'a \<Rightarrow> bool) \<Rightarrow> 'a list \<Rightarrow> 'a list" where
  "sort_Stable lt xs = foldr (insert_Stable lt) xs []"

text \<open>
  All the pointers of a slice dereferenced: \<open>None\<close> when one of them is nil.
\<close>

fun deref_all :: "'a option list \<Rightarrow> 'a list option" where
  "deref_all [] = Some []"
| "deref_all (None # ps) = None"
| "deref_all (Some x # ps) = (case deref_all ps of None \<Rightarrow> None | Some xs \<Rightarrow> Some (x # xs))"

text \<open>
  The loop of \<^verbatim>\<open>getMirrorInfo\<close> over the sorted \<^verbatim>\<open>m.Global\<close>, with
  \<^verbatim>\<open>newMirrors\<close>, \<^verbatim>\<open>m.Countries\<close> and the two counters. A missing key gives the
  empty bucket that \<^verbatim>\<open>make([]*Mirror, 0)\<close> creates.
\<close>

fun getMirrorInfo_loop ::
  "real \<Rightarrow> Mirror option list
     \<Rightarrow> Mirror option list \<times> (string \<rightharpoonup> Mirror option list) \<times> nat \<times> nat
     \<Rightarrow> (Mirror option list \<times> (string \<rightharpoonup> Mirror option list) \<times> nat \<times> nat) option" where
  "getMirrorInfo_loop minC [] acc = Some acc"
| "getMirrorInfo_loop minC (None # rest) acc = None"
| "getMirrorInfo_loop minC (Some mirror # rest) (newMirrors, countries, httpCount, completeCount) =
     (let isHTTP = (Protocol mirror = ''http'');
          httpCount' = (if isHTTP then httpCount + 1 else httpCount);
          isComplete = (Completion mirror \<ge> minC);
          completeCount' = (if isComplete then completeCount + 1 else completeCount)
      in if isHTTP \<and> isComplete
         then (let country = (case countries (CountryCode mirror) of
                                None \<Rightarrow> []
                              | Some bucket \<Rightarrow> bucket)
               in getMirrorInfo_loop minC rest
                    (newMirrors @ [Some mirror],
                     countries(CountryCode mirror \<mapsto> country @ [Some mirror]),
                     httpCount', completeCount'))
         else getMirrorInfo_loop minC rest (newMirrors, countries, httpCount', completeCount'))"

text \<open>
  \<^verbatim>\<open>getMirrorInfo\<close>. \<^verbatim>\<open>Less\<close> reads \<^verbatim>\<open>s[i].Score\<close> and the loop reads
  \<^verbatim>\<open>mirror.Protocol\<close> of every entry, and nothing but log lines happens in between:
  with a nil entry the call panics in the sort or, at the latest, in the loop. The model
  dereferences the entries first.
\<close>

definition getMirrorInfo :: "'a config_scheme \<Rightarrow> fetch_error + MirrorStatus2 \<Rightarrow> (fetch_error, MirrorStatus2) outcome" where
  "getMirrorInfo c resp =
     (case resp of
        Inl e \<Rightarrow> Err e
      | Inr m \<Rightarrow>
          (case deref_all (Global m) of
             None \<Rightarrow> Panic NilDereference
           | Some ms \<Rightarrow>
               (case getMirrorInfo_loop (minCompletion c)
                       (map Some (sort_Stable (sort_Reverse ByScore_Less) ms))
                       ([], Map.empty, 0, 0) of
                  None \<Rightarrow> Panic NilDereference
                | Some (newMirrors, countries, httpCount, completeCount) \<Rightarrow>
                    Ok (m\<lparr>Global := newMirrors, Countries := countries\<rparr>))))"

section \<open>Requests, responses and the standard library\<close>

text \<open>
  Of a request the handlers read \<^verbatim>\<open>r.Method\<close> and \<^verbatim>\<open>r.URL.Path\<close>. A handler's
  effect is the list of calls it makes on the response writer, and whether it returns
  (\<open>None\<close>) or panics.
\<close>

record Request =
  Method :: string
  URL_Path :: string

datatype reply = http_Error string nat | http_NotFound | http_Redirect string nat

type_synonym response = "reply list \<times> panic option"

type_synonym handler = "Request \<Rightarrow> response"

text \<open>\<^verbatim>\<open>http.StatusText\<close>, for the two codes the program asks for.\<close>

definition http_StatusText :: "nat \<Rightarrow> string" where
  "http_StatusText code =
     (if code = 405 then ''Method Not Allowed''
      else if code = 500 then ''Internal Server Error''
      else [])"

text \<open>
  \<^verbatim>\<open>rand.Intn(n)\<close> panics when \<open>n \<le> 0\<close> and returns a number below \<open>n\<close>
  otherwise. The generator is the parameter \<open>rnd\<close>.
\<close>

definition rand_Intn :: "(nat \<Rightarrow> nat) \<Rightarrow> nat \<Rightarrow> nat option" where
  "rand_Intn rnd n = (if n = 0 then None else Some (rnd n mod n))"

definition lower_letters :: string where
  "lower_letters = ''abcdefghijklmnopqrstuvwxyz''"

definition upper_letters :: string where
  "upper_letters = ''ABCDEFGHIJKLMNOPQRSTUVWXYZ''"

text \<open>
  \<^verbatim>\<open>strings.ToUpper\<close> on ASCII text: the program applies it to what the character
  classes \<^verbatim>\<open>[a-z]\<close> and \<^verbatim>\<open>[A-Za-z]\<close> matched.
\<close>

definition ToUpper_char :: "char \<Rightarrow> char" where
  "ToUpper_char ch = (case map_of (zip lower_letters upper_letters) ch of None \<Rightarrow> ch | Some C \<Rightarrow> C)"

definition strings_ToUpper :: "string \<Rightarrow> string" where
  "strings_ToUpper s = map ToUpper_char s"

text \<open>
  \<^verbatim>\<open>path.Clean\<close> and \<^verbatim>\<open>path.Join\<close> of the standard library, by their documented
  rules: a path is cut at its slashes; empty and \<^verbatim>\<open>.\<close> elements go; a \<^verbatim>\<open>..\<close>
  removes the element before it, is dropped at the root, and stays in front of a path
  that is not rooted; the empty result is \<^verbatim>\<open>.\<close>. \<^verbatim>\<open>Join\<close> ignores empty
  elements, cleans the rest joined by slashes, and returns the empty string when nothing
  is left.
\<close>

fun split_slash :: "string \<Rightarrow> string list" where
  "split_slash [] = [[]]"
| "split_slash (ch # cs) =
     (if ch = CHR ''/'' then [] # split_slash cs
      else (case split_slash cs of [] \<Rightarrow> [[ch]] | s # ss \<Rightarrow> (ch # s) # ss))"

fun join_slash :: "string list \<Rightarrow> string" where
  "join_slash [] = []"
| "join_slash [s] = s"
| "join_slash (s # t # ss) = s @ ''/'' @ join_slash (t # ss)"

definition clean_step :: "bool \<Rightarrow> string list \<Rightarrow> string \<Rightarrow> string list" where
  "clean_step rooted out seg =
     (if seg = [] \<or> seg = ''.'' then out
      else if seg = ''..'' then
        (if out \<noteq> [] \<and> last out \<noteq> ''..'' then butlast out
         else if rooted then out
         else out @ [''..''])
      else out @ [seg])"

definition path_Clean :: "string \<Rightarrow> string" where
  "path_Clean p =
     (if p = [] then ''.''
      else (let rooted = (hd p = CHR ''/'');
                out = foldl (clean_step rooted) [] (split_slash p)
            in if rooted then ''/'' @ join_slash out
               else if out = [] then ''.''
               else join_slash out))"

definition path_Join :: "string list \<Rightarrow> string" where
  "path_Join elem =
     (let es = filter (\<lambda>e. e \<noteq> []) elem
      in if es = [] then [] else path_Clean (join_slash es))"

text \<open>
  The fields of \<^verbatim>\<open>url.URL\<close> that the program touches; the others are the record's
  extension. \<^verbatim>\<open>url.Parse\<close> and \<^verbatim>\<open>URL.String\<close> are parameters of the handler
  that calls them.
\<close>

record url_URL =
  Scheme :: string
  Host :: string
  Path :: string

text \<open>
  \<^verbatim>\<open>http.StripPrefix\<close>: the handler \<open>h\<close> on the request without the prefix, and
  \<^verbatim>\<open>NotFound\<close> for a path that does not start with it.
\<close>

definition http_StripPrefix :: "string \<Rightarrow> handler \<Rightarrow> handler" where
  "http_StripPrefix prefix h r =
     (if prefix = [] then h r
      else if take (length prefix) (URL_Path r) = prefix
      then h (r\<lparr>URL_Path := drop (length prefix) (URL_Path r)\<rparr>)
      else ([http_NotFound], None))"

section \<open>The handlers of \<^verbatim>\<open>kaleidoscope.go\<close>\<close>

text \<open>
  The store is the \<^verbatim>\<open>atomic.Value\<close>: \<open>None\<close> until the first \<^verbatim>\<open>Store\<close>, when
  \<^verbatim>\<open>Load\<close> returns nil and the type assertion \<^verbatim>\<open>.(*MirrorStatus)\<close> panics.
\<close>

definition methodOnly :: "string \<Rightarrow> handler \<Rightarrow> handler" where
  "methodOnly method next r =
     (if Method r \<noteq> method then ([http_Error (http_StatusText 405) 405], None)
      else next r)"

definition makeGlobalHandler :: "(nat \<Rightarrow> nat) \<Rightarrow> MirrorStatus option \<Rightarrow> handler" where
  "makeGlobalHandler rnd val r =
     (case val of
        None \<Rightarrow> ([], Some InterfaceConversion)
      | Some status \<Rightarrow>
          (let w = (if length (URLs status) = 0
                    then [http_Error (http_StatusText 500) 500] else [])
           in case rand_Intn rnd (length (URLs status)) of
                None \<Rightarrow> (w, Some IntnInvalidArgument)
              | Some pick \<Rightarrow>
                  (case URLs status ! pick of
                     None \<Rightarrow> (w, Some NilDereference)
                   | Some mirror \<Rightarrow> (w @ [http_Redirect (URL mirror) 302], None))))"

text \<open>
  The pattern \<^verbatim>\<open>/([A-Za-z]{2})$\<close>: it can only match the last three bytes of the
  path. The result is the submatch \<^verbatim>\<open>matches[1]\<close>.
\<close>

definition country_suffix_match :: "string \<Rightarrow> string option" where
  "country_suffix_match p =
     (case rev p of
        b # a # s # front \<Rightarrow>
          (if s = CHR ''/'' \<and> a \<in> set (lower_letters @ upper_letters)
               \<and> b \<in> set (lower_letters @ upper_letters)
           then Some [a, b] else None)
      | _ \<Rightarrow> None)"

text \<open>The loop of \<^verbatim>\<open>makeCountryHandler\<close> that collects \<^verbatim>\<open>res\<close>.\<close>

fun country_loop :: "string \<Rightarrow> Mirror option list \<Rightarrow> Mirror option list \<Rightarrow> Mirror option list option" where
  "country_loop countryCode [] res = Some res"
| "country_loop countryCode (None # rest) res = None"
| "country_loop countryCode (Some mirror # rest) res =
     (if CountryCode mirror = countryCode \<and> Completion mirror \<ge> 1.0
      then country_loop countryCode rest (res @ [Some mirror])
      else country_loop countryCode rest res)"

definition makeCountryHandler :: "(nat \<Rightarrow> nat) \<Rightarrow> MirrorStatus option \<Rightarrow> handler" where
  "makeCountryHandler rnd val r =
     (case country_suffix_match (URL_Path r) of
        None \<Rightarrow> ([http_NotFound], None)
      | Some code \<Rightarrow>
          (let countryCode = strings_ToUpper code
           in case val of
                None \<Rightarrow> ([], Some InterfaceConversion)
              | Some status \<Rightarrow>
                  (let w = (if length (URLs status) = 0
                            then [http_Error (http_StatusText 500) 500] else [])
                   in case country_loop countryCode (URLs status) [] of
                        None \<Rightarrow> (w, Some NilDereference)
                      | Some res \<Rightarrow>
                          if length res = 0 then (w @ [http_NotFound], None)
                          else (case rand_Intn rnd (length res) of
                                  None \<Rightarrow> (w, Some IntnInvalidArgument)
                                | Some pick \<Rightarrow>
                                    (case res ! pick of
                                       None \<Rightarrow> (w, Some NilDereference)
                                     | Some mirror \<Rightarrow>
                                         (w @ [http_Redirect (URL mirror) 302], None))))))"

section \<open>The handler and the selectors of the second file\<close>

datatype selector_error = InvalidCountryCode | CountryNotFound

text \<open>The text of the error, as \<^verbatim>\<open>err.Error()\<close> gives it; \<^verbatim>\<open>res\<close> is nil there.\<close>

definition error_text :: "selector_error \<Rightarrow> string" where
  "error_text e = (case e of InvalidCountryCode \<Rightarrow> ''invalid country code []''
                           | CountryNotFound \<Rightarrow> ''country not found'')"

text \<open>
  A selector returns the mirror and leaves the request, whose path it may have cut.
\<close>

type_synonym selector = "MirrorStatus2 \<Rightarrow> Request \<Rightarrow> (selector_error, Mirror option \<times> Request) outcome"

definition globalSelector :: selector where
  "globalSelector status r =
     (case Global status of
        [] \<Rightarrow> Panic IndexOutOfRange
      | m # ms \<Rightarrow> Ok (m, r))"

text \<open>
  The pattern \<^verbatim>\<open>^/([a-z]{2})(?:/|$)\<close>: the whole match \<^verbatim>\<open>res[0]\<close> and the
  submatch \<^verbatim>\<open>res[1]\<close>.
\<close>

definition country_prefix_match :: "string \<Rightarrow> (string \<times> string) option" where
  "country_prefix_match p =
     (case p of
        s # a # b # rest \<Rightarrow>
          (if s = CHR ''/'' \<and> a \<in> set lower_letters \<and> b \<in> set lower_letters
           then (case rest of
                   [] \<Rightarrow> Some ([s, a, b], [a, b])
                 | d # ds \<Rightarrow> if d = CHR ''/'' then Some ([s, a, b, d], [a, b]) else None)
           else None)
      | _ \<Rightarrow> None)"

definition countrySelector :: selector where
  "countrySelector status r =
     (case country_prefix_match (URL_Path r) of
        None \<Rightarrow> Err InvalidCountryCode
      | Some (res0, res1) \<Rightarrow>
          (case Countries status (strings_ToUpper res1) of
             None \<Rightarrow> Err CountryNotFound
           | Some country \<Rightarrow>
               (case country of
                  [] \<Rightarrow> Panic IndexOutOfRange
                | m # ms \<Rightarrow> Ok (m, r\<lparr>URL_Path := drop (length res0) (URL_Path r)\<rparr>))))"

definition redirector ::
  "(string \<Rightarrow> 'u url_URL_scheme option) \<Rightarrow> ('u url_URL_scheme \<Rightarrow> string)
     \<Rightarrow> MirrorStatus2 option \<Rightarrow> selector \<Rightarrow> handler" where
  "redirector url_Parse url_String status s r =
     (if Method r \<noteq> ''GET'' then ([http_Error (http_StatusText 405) 405], None)
      else case status of
        None \<Rightarrow> ([], Some InterfaceConversion)
      | Some c \<Rightarrow>
          if length (Global c) = 0 then ([http_Error (http_StatusText 500) 500], None)
          else (case s c r of
                  Panic p \<Rightarrow> ([], Some p)
                | Err err \<Rightarrow> ([http_Error (error_text err) 404], None)
                | Ok (None, r') \<Rightarrow> ([], Some NilDereference)
                | Ok (Some mirror, r') \<Rightarrow>
                    (case url_Parse (URL mirror) of
                       None \<Rightarrow> ([http_Error (http_StatusText 500) 500], None)
                     | Some u \<Rightarrow>
                         ([http_Redirect
                             (url_String (u\<lparr>Path := path_Join [Path u, URL_Path r']\<rparr>)) 302],
                          None))))"

text \<open>The two handlers as \<^verbatim>\<open>main\<close> registers them.\<close>

definition countryHandler ::
  "(string \<Rightarrow> 'u url_URL_scheme option) \<Rightarrow> ('u url_URL_scheme \<Rightarrow> string)
     \<Rightarrow> MirrorStatus2 option \<Rightarrow> handler" where
  "countryHandler url_Parse url_String status =
     http_StripPrefix ''/country'' (redirector url_Parse url_String status countrySelector)"

definition globalHandler ::
  "(string \<Rightarrow> 'u url_URL_scheme option) \<Rightarrow> ('u url_URL_scheme \<Rightarrow> string)
     \<Rightarrow> MirrorStatus2 option \<Rightarrow> handler" where
  "globalHandler url_Parse url_String status =
     http_StripPrefix ''/global'' (redirector url_Parse url_String status globalSelector)"

section \<open>The refresh loop\<close>

text \<open>
  \<^verbatim>\<open>update\<close> never returns. The model runs it against the answers the network gives
  to its first fetches, one answer for each turn of the loop, and keeps what the loop did
  in a trace: \<open>Fetched\<close> is the call of the builder, \<open>TickAwaited\<close> the receive
  \<^verbatim>\<open><-ticker.C\<close>. A panic of the builder ends the goroutine.
\<close>

datatype 's event =
  LogPerforming | Fetched | LogError fetch_error | Stored 's | LogComplete | DoneSent | TickAwaited

record 's updater =
  status_val :: "'s option"
  trace :: "'s event list"
  crashed :: "panic option"

fun update :: "'a config_scheme \<Rightarrow> (fetch_error + MirrorStatus) list \<Rightarrow> MirrorStatus updater \<Rightarrow> MirrorStatus updater" where
  "update c [] st = st"
| "update c (resp # rest) st =
     (case getData c resp of
        Err err \<Rightarrow>
          update c rest (st\<lparr>trace := trace st @ [LogPerforming, Fetched, LogError err]\<rparr>)
      | Panic p \<Rightarrow> st\<lparr>trace := trace st @ [LogPerforming, Fetched], crashed := Some p\<rparr>
      | Ok newM \<Rightarrow>
          update c rest
            (st\<lparr>status_val := Some newM,
                trace := trace st @ [LogPerforming, Fetched, Stored newM, LogComplete, TickAwaited]\<rparr>))"

text \<open>
  The second file's \<^verbatim>\<open>update\<close>: after the store, \<^verbatim>\<open>once.Do\<close> sends on
  \<^verbatim>\<open>done\<close> the first time.
\<close>

record 's updater2 = "'s updater" +
  once :: bool

fun update2 :: "'a config_scheme \<Rightarrow> (fetch_error + MirrorStatus2) list \<Rightarrow> MirrorStatus2 updater2 \<Rightarrow> MirrorStatus2 updater2" where
  "update2 c [] st = st"
| "update2 c (resp # rest) st =
     (case getMirrorInfo c resp of
        Err err \<Rightarrow>
          update2 c rest (st\<lparr>trace := trace st @ [LogPerforming, Fetched, LogError err]\<rparr>)
      | Panic p \<Rightarrow> st\<lparr>trace := trace st @ [LogPerforming, Fetched], crashed := Some p\<rparr>
      | Ok newM \<Rightarrow>
          update2 c rest
            (st\<lparr>status_val := Some newM,
                trace := trace st @ [LogPerforming, Fetched, Stored newM, LogComplete]
                           @ (if once st then [] else [DoneSent]) @ [TickAwaited],
                once := True\<rparr>))"

text \<open>The state in which \<^verbatim>\<open>main\<close> starts \<^verbatim>\<open>update\<close>: nothing stored, nothing done.\<close>

definition updater_init :: "'s updater" where
  "updater_init = \<lparr>status_val = None, trace = [], crashed = None\<rparr>"

definition updater2_init :: "'s updater2" where
  "updater2_init = \<lparr>status_val = None, trace = [], crashed = None, once = False\<rparr>"


section \<open>Terms of the properties\<close>

text \<open>
  The condition under which the specification retains a record: its protocol is
  \<^verbatim>\<open>http\<close> and its completion is at least the threshold \<open>t\<close>. A nil pointer is no
  record.
\<close>

definition http_and_complete :: "real \<Rightarrow> Mirror option \<Rightarrow> bool" where
  "http_and_complete t p =
     (case p of None \<Rightarrow> False | Some x \<Rightarrow> Protocol x = ''http'' \<and> t \<le> Completion x)"

text \<open>The record behind the pointer has the country code \<open>code\<close>.\<close>

definition in_country :: "string \<Rightarrow> Mirror option \<Rightarrow> bool" where
  "in_country code p = (case p of None \<Rightarrow> False | Some x \<Rightarrow> CountryCode x = code)"

text \<open>
  The index expression \<^verbatim>\<open>m[k]\<close> on a map of slices: a missing key gives the nil
  slice, which is empty.
\<close>

definition map_index :: "('k \<rightharpoonup> 'v list) \<Rightarrow> 'k \<Rightarrow> 'v list" where
  "map_index m k = (case m k of None \<Rightarrow> [] | Some b \<Rightarrow> b)"

text \<open>The records that the pointers of a slice point to, nil pointers left out.\<close>

fun records_of :: "'a option list \<Rightarrow> 'a list" where
  "records_of [] = []"
| "records_of (None # ps) = records_of ps"
| "records_of (Some x # ps) = x # records_of ps"



section \<open>Example data\<close>

text \<open>
  The specification's scenario: three mirrors, of which only the first is \<^verbatim>\<open>http\<close>
  and complete, under the default configuration of each file. A second payload has
  mirrors of equal score.
\<close>

definition example_mirror :: "string \<Rightarrow> string \<Rightarrow> string \<Rightarrow> real \<Rightarrow> real \<Rightarrow> Mirror" where
  "example_mirror proto u code sc compl =
     \<lparr>Protocol = proto, URL = u, Country = [], LastSync = None, Delay = 0, Score = sc,
      Completion = compl, CountryCode = code, DurStdDev = 0, DurAvg = 0\<rparr>"

definition entry1 :: Mirror where
  "entry1 = example_mirror ''http'' ''http://one.example/archlinux/'' ''US'' 10 1"

definition entry2 :: Mirror where
  "entry2 = example_mirror ''https'' ''https://two.example/archlinux/'' ''US'' 5 1"

definition entry3 :: Mirror where
  "entry3 = example_mirror ''http'' ''http://three.example/archlinux/'' ''DE'' 1 0.5"

definition scenario_status :: MirrorStatus where
  "scenario_status = \<lparr>Cutoff = 0, CheckFrequency = 0, NumChecks = 0, LastCheck = 0, Version = 3,
      URLs = [Some entry1, Some entry2, Some entry3]\<rparr>"

definition scenario_status2 :: MirrorStatus2 where
  "scenario_status2 = \<lparr>Cutoff = 0, CheckFrequency = 0, NumChecks = 0, LastCheck = 0, Version = 3,
      Global = [Some entry1, Some entry2, Some entry3], Countries = Map.empty\<rparr>"

definition default_config :: config where
  "default_config = \<lparr>url = ''https://www.archlinux.org/mirrors/status/json/'',
      interval = 3600000000000, minCompletion = 1\<rparr>"

definition default_config2 :: config2 where
  "default_config2 = \<lparr>url = ''https://www.archlinux.org/mirrors/status/json/'',
      interval = 3600000000000, minCompletion = 1, host = ''0.0.0.0'', port = 9090\<rparr>"

definition tie_a :: Mirror where "tie_a = example_mirror ''http'' ''http://a.example/'' ''US'' 2 1"
definition tie_b :: Mirror where "tie_b = example_mirror ''http'' ''http://b.example/'' ''DE'' 5 1"
definition tie_c :: Mirror where "tie_c = example_mirror ''http'' ''http://c.example/'' ''DE'' 2 1"
definition tie_d :: Mirror where "tie_d = example_mirror ''http'' ''http://d.example/'' ''US'' 5 1"

definition tie_status2 :: MirrorStatus2 where
  "tie_status2 = \<lparr>Cutoff = 0, CheckFrequency = 0, NumChecks = 0, LastCheck = 0, Version = 3,
      Global = [Some tie_a, Some tie_b, Some entry2, Some tie_c, Some tie_d], Countries = Map.empty\<rparr>"

text \<open>The snapshots that the builders make of these payloads.\<close>

definition scenario_snapshot :: MirrorStatus where
  "scenario_snapshot = scenario_status\<lparr>URLs := [Some entry1]\<rparr>"

definition scenario_snapshot2 :: MirrorStatus2 where
  "scenario_snapshot2 = scenario_status2\<lparr>Global := [Some entry1],
      Countries := [''US'' \<mapsto> [Some entry1]]\<rparr>"

definition tie_snapshot :: MirrorStatus2 where
  "tie_snapshot = tie_status2\<lparr>Global := [Some tie_b, Some tie_d, Some tie_a, Some tie_c],
      Countries := [''US'' \<mapsto> [Some tie_d, Some tie_a], ''DE'' \<mapsto> [Some tie_b, Some tie_c]]\<rparr>"

text \<open>An empty payload and the snapshots the builders make of it.\<close>

definition empty_status :: MirrorStatus where
  "empty_status = \<lparr>Cutoff = 0, CheckFrequency = 0, NumChecks = 0, LastCheck = 0, Version = 3,
      URLs = []\<rparr>"

definition empty_status2 :: MirrorStatus2 where
  "empty_status2 = \<lparr>Cutoff = 0, CheckFrequency = 0, NumChecks = 0, LastCheck = 0, Version = 3,
      Global = [], Countries = Map.empty\<rparr>"

text \<open>A generator that always gives the least number.\<close>

definition first_pick :: "nat \<Rightarrow> nat" where
  "first_pick n = 0"

text \<open>
  Stand-ins for \<^verbatim>\<open>url.Parse\<close> and \<^verbatim>\<open>URL.String\<close> in the examples. They agree
  with the library on a URL \<^verbatim>\<open>scheme://host/path\<close> of letters, digits, dots, dashes
  and slashes, which needs no escaping and has no user, query or fragment; a text without
  \<^verbatim>\<open>://\<close> is a path.
\<close>

fun scheme_split :: "string \<Rightarrow> (string \<times> string) option" where
  "scheme_split [] = None"
| "scheme_split (ch # cs) =
     (if take 3 (ch # cs) = ''://'' then Some ([], drop 3 (ch # cs))
      else (case scheme_split cs of None \<Rightarrow> None | Some (a, b) \<Rightarrow> Some (ch # a, b)))"

definition simple_url_Parse :: "string \<Rightarrow> url_URL option" where
  "simple_url_Parse s =
     (case scheme_split s of
        None \<Rightarrow> Some \<lparr>Scheme = [], Host = [], Path = s\<rparr>
      | Some (scheme, rest) \<Rightarrow>
          Some \<lparr>Scheme = scheme,
                Host = takeWhile (\<lambda>ch. ch \<noteq> CHR ''/'') rest,
                Path = dropWhile (\<lambda>ch. ch \<noteq> CHR ''/'') rest\<rparr>)"

definition simple_url_String :: "url_URL \<Rightarrow> string" where
  "simple_url_String u = (if Scheme u = [] then Path u else Scheme u @ ''://'' @ Host u @ Path u)"

text \<open>The mirror of the redirect scenario, and the snapshot that holds it alone.\<close>

definition example_us_mirror :: Mirror where
  "example_us_mirror = example_mirror ''http'' ''https://mirror.example/archlinux/'' ''US'' 1 1"

definition example_us_status2 :: MirrorStatus2 where
  "example_us_status2 = \<lparr>Cutoff = 0, CheckFrequency = 0, NumChecks = 0, LastCheck = 0, Version = 3,
      Global = [Some example_us_mirror], Countries = Map.empty\<rparr>"

definition example_us_snapshot :: MirrorStatus2 where
  "example_us_snapshot = example_us_status2\<lparr>Global := [Some example_us_mirror],
      Countries := [''US'' \<mapsto> [Some example_us_mirror]]\<rparr>"

text \<open>A configuration with a lower minimum, and the snapshot \<^verbatim>\<open>getData\<close> then builds.\<close>

definition lenient_config :: config where
  "lenient_config = default_config\<lparr>minCompletion := 0.5\<rparr>"

definition lenient_snapshot :: MirrorStatus where
  "lenient_snapshot = scenario_status\<lparr>URLs := [Some entry1, Some entry3]\<rparr>"

section \<open>The builders\<close>

text \<open>Dereferencing succeeds exactly on a slice without nil pointers.\<close>

lemma deref_all_map_Some: "deref_all (map Some xs) = Some xs"
  by (induction xs) simp_all

lemma deref_all_SomeD: "deref_all ps = Some xs \<Longrightarrow> ps = map Some xs"
proof (induction ps arbitrary: xs)
  case Nil
  then show ?case by simp
next
  case (Cons p ps)
  show ?case
  proof (cases p)
    case None
    with Cons.prems show ?thesis by simp
  next
    case (Some z)
    with Cons.prems obtain zs where zs: "deref_all ps = Some zs" and xs: "xs = z # zs"
      by (auto split: option.splits)
    from Cons.IH [OF zs] Some xs show ?thesis by simp
  qed
qed

lemma deref_all_NoneD: "deref_all ps = None \<Longrightarrow> None \<in> set ps"
  by (induction ps rule: deref_all.induct) (auto split: option.splits)

text \<open>
  The loop of \<^verbatim>\<open>getData\<close> appends to \<^verbatim>\<open>newURLs\<close> the entries that are
  \<^verbatim>\<open>http\<close> and complete, in order, and panics on a nil entry.
\<close>

lemma getData_loop_nil: "None \<in> set xs \<Longrightarrow> getData_loop t xs acc = None"
  by (induction t xs acc rule: getData_loop.induct) (auto simp: Let_def)

lemma getData_loop_Some:
  "getData_loop t xs (new, h, k) = Some (new', h', k') \<Longrightarrow>
     new' = new @ filter (http_and_complete t) xs \<and> None \<notin> set xs"
proof (induction xs arbitrary: new h k)
  case Nil
  then show ?case by simp
next
  case (Cons p ps)
  show ?case
  proof (cases p)
    case None
    with Cons.prems show ?thesis by simp
  next
    case (Some u)
    show ?thesis
    proof (cases "Protocol u = ''http'' \<and> t \<le> Completion u")
      case True
      from Cons.prems Some True obtain h1 k1 where
        run: "getData_loop t ps (new @ [Some u], h1, k1) = Some (new', h', k')"
        by (auto simp: Let_def)
      have keep: "http_and_complete t p" using Some True by (simp add: http_and_complete_def)
      from Cons.IH [OF run] keep Some show ?thesis by simp
    next
      case False
      from Cons.prems Some False obtain h1 k1 where
        run: "getData_loop t ps (new, h1, k1) = Some (new', h', k')"
        by (auto simp: Let_def split: if_splits)
      have drop: "\<not> http_and_complete t p" using Some False by (simp add: http_and_complete_def)
      from Cons.IH [OF run] drop Some show ?thesis by simp
    qed
  qed
qed

lemma getData_loop_total:
  "None \<notin> set xs \<Longrightarrow> \<exists>r. getData_loop t xs acc = Some r"
  by (induction t xs acc rule: getData_loop.induct) (auto simp: Let_def)

lemma getData_Ok:
  "getData c (Inr m) = Ok s \<Longrightarrow> s = m\<lparr>URLs := filter (http_and_complete (minCompletion c)) (URLs m)\<rparr> \<and> None \<notin> set (URLs m)"
  unfolding getData_def
  by (auto split: option.splits dest: getData_loop_Some)

text \<open>
  One turn of the loop of \<^verbatim>\<open>getMirrorInfo\<close>: either the mirror is appended to
  \<^verbatim>\<open>newMirrors\<close> and to the bucket of its country, or nothing but a counter
  changes.
\<close>

lemma getMirrorInfo_loop_step:
  assumes "getMirrorInfo_loop t (Some u # ps) (new, cs, h, k) = Some r"
  shows "(http_and_complete t (Some u) \<and>
            (\<exists>h1 k1. getMirrorInfo_loop t ps
                (new @ [Some u], cs(CountryCode u \<mapsto> map_index cs (CountryCode u) @ [Some u]), h1, k1) = Some r))
         \<or> (\<not> http_and_complete t (Some u) \<and>
            (\<exists>h1 k1. getMirrorInfo_loop t ps (new, cs, h1, k1) = Some r))"
proof (cases "Protocol u = ''http'' \<and> t \<le> Completion u")
  case True
  with assms show ?thesis
    by (simp add: Let_def map_index_def http_and_complete_def) blast
next
  case False
  with assms show ?thesis
    by (simp add: Let_def http_and_complete_def split: if_splits) blast+
qed

lemma map_index_upd:
  "map_index (cs(c \<mapsto> map_index cs c @ [p])) code
     = map_index cs code @ (if code = c then [p] else [])"
  by (simp add: map_index_def)

text \<open>
  Three invariants of the loop: what it appends to \<^verbatim>\<open>newMirrors\<close>; what it
  appends to each bucket; that it leaves no bucket empty.
\<close>

lemma getMirrorInfo_loop_Some:
  "getMirrorInfo_loop t xs (new, cs, h, k) = Some (new', cs', h', k') \<Longrightarrow>
     new' = new @ filter (http_and_complete t) xs \<and> None \<notin> set xs"
proof (induction xs arbitrary: new cs h k)
  case Nil
  then show ?case by simp
next
  case (Cons p ps)
  show ?case
  proof (cases p)
    case None
    with Cons.prems show ?thesis by simp
  next
    case (Some u)
    from Cons.prems [unfolded Some, THEN getMirrorInfo_loop_step]
    show ?thesis
    proof (elim disjE conjE exE)
      fix h1 k1
      assume keep: "http_and_complete t (Some u)"
        and run: "getMirrorInfo_loop t ps
                (new @ [Some u], cs(CountryCode u \<mapsto> map_index cs (CountryCode u) @ [Some u]), h1, k1) = Some (new', cs', h', k')"
      from Cons.IH [OF run] keep Some show ?thesis by simp
    next
      fix h1 k1
      assume drop: "\<not> http_and_complete t (Some u)"
        and run: "getMirrorInfo_loop t ps (new, cs, h1, k1) = Some (new', cs', h', k')"
      from Cons.IH [OF run] drop Some show ?thesis by simp
    qed
  qed
qed

lemma getMirrorInfo_loop_index:
  "getMirrorInfo_loop t xs (new, cs, h, k) = Some (new', cs', h', k') \<Longrightarrow>
     map_index cs' code
       = map_index cs code @ filter (in_country code) (filter (http_and_complete t) xs)"
proof (induction xs arbitrary: new cs h k)
  case Nil
  then show ?case by simp
next
  case (Cons p ps)
  show ?case
  proof (cases p)
    case None
    with Cons.prems show ?thesis by simp
  next
    case (Some u)
    from Cons.prems [unfolded Some, THEN getMirrorInfo_loop_step]
    show ?thesis
    proof (elim disjE conjE exE)
      fix h1 k1
      assume keep: "http_and_complete t (Some u)"
        and run: "getMirrorInfo_loop t ps
                (new @ [Some u], cs(CountryCode u \<mapsto> map_index cs (CountryCode u) @ [Some u]), h1, k1) = Some (new', cs', h', k')"
      have inc: "in_country code (Some u) \<longleftrightarrow> code = CountryCode u"
        by (auto simp: in_country_def)
      have ih: "map_index cs' code
          = map_index (cs(CountryCode u \<mapsto> map_index cs (CountryCode u) @ [Some u])) code
              @ filter (in_country code) (filter (http_and_complete t) ps)"
        by (rule Cons.IH [OF run])
      show ?thesis
        unfolding ih map_index_upd Some using keep inc by simp
    next
      fix h1 k1
      assume drop: "\<not> http_and_complete t (Some u)"
        and run: "getMirrorInfo_loop t ps (new, cs, h1, k1) = Some (new', cs', h', k')"
      from Cons.IH [OF run] drop Some show ?thesis by simp
    qed
  qed
qed

lemma getMirrorInfo_loop_nonempty:
  "getMirrorInfo_loop t xs (new, cs, h, k) = Some (new', cs', h', k') \<Longrightarrow>
     (\<And>code b. cs code = Some b \<Longrightarrow> b \<noteq> []) \<Longrightarrow> cs' code = Some b \<Longrightarrow> b \<noteq> []"
proof (induction xs arbitrary: new cs h k)
  case Nil
  then show ?case by simp
next
  case (Cons p ps)
  show ?case
  proof (cases p)
    case None
    with Cons.prems show ?thesis by simp
  next
    case (Some u)
    from Cons.prems(1) [unfolded Some, THEN getMirrorInfo_loop_step]
    show ?thesis
    proof (elim disjE conjE exE)
      fix h1 k1
      let ?cs = "cs(CountryCode u \<mapsto> map_index cs (CountryCode u) @ [Some u])"
      assume run: "getMirrorInfo_loop t ps (new @ [Some u], ?cs, h1, k1) = Some (new', cs', h', k')"
      have ne: "\<And>code b. ?cs code = Some b \<Longrightarrow> b \<noteq> []"
        using Cons.prems(2) by (auto split: if_splits)
      from Cons.IH [OF run ne Cons.prems(3)] show ?thesis .
    next
      fix h1 k1
      assume run: "getMirrorInfo_loop t ps (new, cs, h1, k1) = Some (new', cs', h', k')"
      from Cons.IH [OF run Cons.prems(2) Cons.prems(3)] show ?thesis .
    qed
  qed
qed

lemma getMirrorInfo_loop_total:
  "None \<notin> set xs \<Longrightarrow> \<exists>r. getMirrorInfo_loop t xs acc = Some r"
  by (induction t xs acc rule: getMirrorInfo_loop.induct) (auto simp: Let_def)

lemma records_of_map_Some: "records_of (map Some xs) = xs"
  by (induction xs) simp_all

lemma records_of_filter:
  "records_of (filter (http_and_complete t) (map Some xs))
     = filter (\<lambda>x. Protocol x = ''http'' \<and> t \<le> Completion x) xs"
  by (induction xs) (simp_all add: http_and_complete_def)

text \<open>
  The sort: a permutation, ordered by falling score under \<^verbatim>\<open>sort.Reverse\<close> of
  \<^verbatim>\<open>ByScore\<close>, and stable.
\<close>

lemma mset_insert_Stable: "mset (insert_Stable lt x ys) = add_mset x (mset ys)"
  by (induction ys) simp_all

lemma mset_sort_Stable: "mset (sort_Stable lt xs) = mset xs"
  by (induction xs) (simp_all add: sort_Stable_def mset_insert_Stable)

lemma set_insert_Stable: "set (insert_Stable lt x ys) = insert x (set ys)"
  by (induction ys) auto

lemma sorted_insert_Stable:
  "sorted_wrt (\<lambda>a b. Score b \<le> Score a) ys \<Longrightarrow>
     sorted_wrt (\<lambda>a b. Score b \<le> Score a) (insert_Stable (sort_Reverse ByScore_Less) x ys)"
proof (induction ys)
  case Nil
  then show ?case by simp
next
  case (Cons y ys)
  show ?case
  proof (cases "Score x < Score y")
    case True
    with Cons show ?thesis
      by (auto simp: sort_Reverse_def ByScore_Less_def set_insert_Stable)
  next
    case False
    then have "Score y \<le> Score x" by simp
    moreover have "\<forall>z\<in>set ys. Score z \<le> Score x"
      using Cons.prems \<open>Score y \<le> Score x\<close> by (auto intro: order_trans)
    ultimately show ?thesis
      using Cons.prems False by (simp add: sort_Reverse_def ByScore_Less_def)
  qed
qed

lemma sorted_sort_Stable:
  "sorted_wrt (\<lambda>a b. Score b \<le> Score a) (sort_Stable (sort_Reverse ByScore_Less) xs)"
  by (induction xs) (simp_all add: sort_Stable_def sorted_insert_Stable)

lemma filter_insert_Stable:
  "filter (\<lambda>m. Score m = k) (insert_Stable (sort_Reverse ByScore_Less) x ys)
     = filter (\<lambda>m. Score m = k) (x # ys)"
  by (induction ys) (auto simp: sort_Reverse_def ByScore_Less_def)

lemma filter_sort_Stable:
  "filter (\<lambda>m. Score m = k) (sort_Stable (sort_Reverse ByScore_Less) xs)
     = filter (\<lambda>m. Score m = k) xs"
proof (induction xs)
  case Nil
  then show ?case by (simp add: sort_Stable_def)
next
  case (Cons x xs)
  have "sort_Stable (sort_Reverse ByScore_Less) (x # xs)
      = insert_Stable (sort_Reverse ByScore_Less) x (sort_Stable (sort_Reverse ByScore_Less) xs)"
    by (simp add: sort_Stable_def)
  then show ?case using Cons.IH by (simp add: filter_insert_Stable)
qed

text \<open>What a snapshot returned by \<^verbatim>\<open>getMirrorInfo\<close> is made of.\<close>

lemma getMirrorInfo_Ok:
  assumes "getMirrorInfo c (Inr m) = Ok s"
  obtains ms cs where
    "Global m = map Some ms"
    "Global s = filter (http_and_complete (minCompletion c))
                  (map Some (sort_Stable (sort_Reverse ByScore_Less) ms))"
    "Countries s = cs"
    "\<And>code. map_index cs code = filter (in_country code) (Global s)"
    "\<And>code b. cs code = Some b \<Longrightarrow> b \<noteq> []"
proof -
  from assms obtain ms where ms: "deref_all (Global m) = Some ms"
    by (auto simp: getMirrorInfo_def split: option.splits)
  let ?sorted = "map Some (sort_Stable (sort_Reverse ByScore_Less) ms)"
  from assms ms obtain new cs h k where
    run: "getMirrorInfo_loop (minCompletion c) ?sorted ([], Map.empty, 0, 0) = Some (new, cs, h, k)"
    and s: "s = m\<lparr>Global := new, Countries := cs\<rparr>"
    by (auto simp: getMirrorInfo_def split: option.splits)
  have g: "Global s = filter (http_and_complete (minCompletion c)) ?sorted"
    using getMirrorInfo_loop_Some [OF run] s by simp
  have idx: "map_index cs code = filter (in_country code) (Global s)" for code
    using getMirrorInfo_loop_index [OF run, of code] g by (simp add: map_index_def)
  have ne: "b \<noteq> []" if "cs code = Some b" for code b
    using getMirrorInfo_loop_nonempty [OF run _ that] by simp
  show thesis
    using that [OF deref_all_SomeD [OF ms] g _ idx ne] s by simp
qed

text \<open>The builders on the example payloads.\<close>

lemmas example_defs = example_mirror_def entry1_def entry2_def entry3_def scenario_status_def
  scenario_status2_def default_config_def default_config2_def tie_a_def tie_b_def tie_c_def
  tie_d_def tie_status2_def

lemmas builder_defs = getData_def getMirrorInfo_def sort_Stable_def sort_Reverse_def
  ByScore_Less_def Let_def

lemma scenario_getData:
  "getData default_config (Inr scenario_status) = Ok scenario_snapshot"
  by (simp add: builder_defs example_defs scenario_snapshot_def)

lemma scenario_getMirrorInfo:
  "getMirrorInfo default_config2 (Inr scenario_status2)
     = Ok scenario_snapshot2"
  by (simp add: builder_defs example_defs scenario_snapshot2_def)

lemma tie_getMirrorInfo:
  "getMirrorInfo default_config2 (Inr tie_status2)
     = Ok tie_snapshot"
  by (simp add: builder_defs example_defs tie_snapshot_def)

text \<open>
  Claim C1. Whenever a builder returns a snapshot, its list holds exactly the entries of
  the decoded payload whose protocol is \<^verbatim>\<open>http\<close> and whose completion is at least
  the configured minimum: \<^verbatim>\<open>getData\<close> keeps them in the payload's order,
  \<^verbatim>\<open>getMirrorInfo\<close> keeps each of them as often as the payload has it. (A payload
  with a \<^verbatim>\<open>null\<close> entry makes the builder panic, and a failed fetch makes it return
  the error: then there is no snapshot.)
\<close>

theorem builder_keeps_http_and_complete:
  "(getData c (Inr m) = Ok s \<longrightarrow>
      URLs s = filter (http_and_complete (minCompletion c)) (URLs m)) \<and>
   (getMirrorInfo c' (Inr m') = Ok s' \<longrightarrow>
      mset (Global s') = mset (filter (http_and_complete (minCompletion c')) (Global m')))"
proof (intro conjI impI)
  assume "getData c (Inr m) = Ok s"
  from getData_Ok [OF this]
  show "URLs s = filter (http_and_complete (minCompletion c)) (URLs m)" by simp
next
  assume "getMirrorInfo c' (Inr m') = Ok s'"
  then obtain ms where m: "Global m' = map Some ms"
    and g: "Global s' = filter (http_and_complete (minCompletion c'))
                  (map Some (sort_Stable (sort_Reverse ByScore_Less) ms))"
    by (rule getMirrorInfo_Ok)
  have "mset (map Some (sort_Stable (sort_Reverse ByScore_Less) ms)) = mset (map Some ms)"
    by (simp add: mset_sort_Stable)
  then show "mset (Global s') = mset (filter (http_and_complete (minCompletion c')) (Global m'))"
    unfolding g m by (metis mset_filter)
qed

theorem builder_keeps_http_and_complete_witness:
  "getData default_config (Inr scenario_status) = Ok scenario_snapshot \<and>
   getMirrorInfo default_config2 (Inr scenario_status2) = Ok scenario_snapshot2 \<and>
   URLs scenario_snapshot
     = filter (http_and_complete (minCompletion default_config)) (URLs scenario_status) \<and>
   mset (Global scenario_snapshot2)
     = mset (filter (http_and_complete (minCompletion default_config2)) (Global scenario_status2)) \<and>
   URLs scenario_snapshot = [Some entry1] \<and> Global scenario_snapshot2 = [Some entry1]"
proof -
  note t = builder_keeps_http_and_complete [of default_config scenario_status
      scenario_snapshot default_config2 scenario_status2 scenario_snapshot2]
  have "URLs scenario_snapshot = [Some entry1]" "Global scenario_snapshot2 = [Some entry1]"
    by (simp_all add: scenario_snapshot_def scenario_snapshot2_def)
  with t scenario_getData scenario_getMirrorInfo show ?thesis
    by blast
qed

text \<open>
  The country index of the second file. In a snapshot that \<^verbatim>\<open>getMirrorInfo\<close>
  returns, indexing \<^verbatim>\<open>Countries\<close> with a country code gives the entries of
  \<^verbatim>\<open>Global\<close> that carry this code, in the order they have in \<^verbatim>\<open>Global\<close>; a
  code that no entry carries gives the empty list.
\<close>

lemma country_index_matches_global:
  "getMirrorInfo c (Inr m) = Ok s \<Longrightarrow>
     map_index (Countries s) code = filter (in_country code) (Global s)"
  by (erule getMirrorInfo_Ok) simp

lemma country_index_of_tie_snapshot:
  "getMirrorInfo default_config2 (Inr tie_status2) = Ok tie_snapshot \<and>
   map_index (Countries tie_snapshot) ''US'' = filter (in_country ''US'') (Global tie_snapshot) \<and>
   map_index (Countries tie_snapshot) ''US'' = [Some tie_d, Some tie_a]"
proof -
  note t = country_index_matches_global [OF tie_getMirrorInfo, of "''US''"]
  have "map_index (Countries tie_snapshot) ''US'' = [Some tie_d, Some tie_a]"
    by (simp add: tie_snapshot_def map_index_def)
  with tie_getMirrorInfo t show ?thesis by blast
qed

lemma filter_commute: "filter P (filter Q xs) = filter Q (filter P xs)"
  by (induction xs) simp_all

text \<open>
  Claim C7. The list \<^verbatim>\<open>Global\<close> of a snapshot that \<^verbatim>\<open>getMirrorInfo\<close> returns
  has no nil entry, is ordered by falling score (the direction \<^verbatim>\<open>sort.Reverse\<close> of
  \<^verbatim>\<open>ByScore\<close> fixes: the highest score first), and for every score \<open>k\<close> the
  retained entries of score \<open>k\<close> stand in the order the payload had them.
\<close>

theorem global_list_sorted_by_score:
  "getMirrorInfo c (Inr m) = Ok s \<Longrightarrow>
     None \<notin> set (Global s) \<and>
     sorted_wrt (\<lambda>a b. Score b \<le> Score a) (records_of (Global s)) \<and>
     filter (\<lambda>x. Score x = k) (records_of (Global s))
       = filter (\<lambda>x. Score x = k)
           (filter (\<lambda>x. Protocol x = ''http'' \<and> minCompletion c \<le> Completion x)
              (records_of (Global m)))"
proof -
  assume "getMirrorInfo c (Inr m) = Ok s"
  then obtain ms where m: "Global m = map Some ms"
    and g: "Global s = filter (http_and_complete (minCompletion c))
                  (map Some (sort_Stable (sort_Reverse ByScore_Less) ms))"
    by (rule getMirrorInfo_Ok)
  let ?keep = "\<lambda>x. Protocol x = ''http'' \<and> minCompletion c \<le> Completion x"
  let ?sorted = "sort_Stable (sort_Reverse ByScore_Less) ms"
  have r: "records_of (Global s) = filter ?keep ?sorted"
    unfolding g by (rule records_of_filter)
  have "None \<notin> set (Global s)" unfolding g by auto
  moreover have "sorted_wrt (\<lambda>a b. Score b \<le> Score a) (records_of (Global s))"
    unfolding r by (intro sorted_wrt_filter sorted_sort_Stable)
  moreover have "filter (\<lambda>x. Score x = k) (records_of (Global s))
      = filter (\<lambda>x. Score x = k) (filter ?keep (records_of (Global m)))"
  proof -
    have "filter (\<lambda>x. Score x = k) (filter ?keep ?sorted)
        = filter ?keep (filter (\<lambda>x. Score x = k) ?sorted)"
      by (rule filter_commute)
    also have "\<dots> = filter ?keep (filter (\<lambda>x. Score x = k) ms)"
      by (simp only: filter_sort_Stable)
    also have "\<dots> = filter (\<lambda>x. Score x = k) (filter ?keep ms)"
      by (rule filter_commute)
    finally show ?thesis
      unfolding r m records_of_map_Some .
  qed
  ultimately show ?thesis by blast
qed

theorem global_list_sorted_by_score_witness:
  "getMirrorInfo default_config2 (Inr tie_status2) = Ok tie_snapshot \<and>
   None \<notin> set (Global tie_snapshot) \<and>
   sorted_wrt (\<lambda>a b. Score b \<le> Score a) (records_of (Global tie_snapshot)) \<and>
   filter (\<lambda>x. Score x = 5) (records_of (Global tie_snapshot))
     = filter (\<lambda>x. Score x = 5)
         (filter (\<lambda>x. Protocol x = ''http'' \<and> minCompletion default_config2 \<le> Completion x)
            (records_of (Global tie_status2))) \<and>
   records_of (Global tie_snapshot) = [tie_b, tie_d, tie_a, tie_c]"
proof -
  note t = global_list_sorted_by_score [OF tie_getMirrorInfo, of 5]
  have "records_of (Global tie_snapshot) = [tie_b, tie_d, tie_a, tie_c]"
    by (simp add: tie_snapshot_def)
  with tie_getMirrorInfo t show ?thesis by blast
qed

text \<open>
  Claim C10. In a snapshot that \<^verbatim>\<open>getMirrorInfo\<close> returns, every key of
  \<^verbatim>\<open>Countries\<close> has a bucket that is not empty, so \<^verbatim>\<open>country[0]\<close> in
  \<^verbatim>\<open>countrySelector\<close> never panics on it.
\<close>

theorem country_buckets_nonempty:
  "getMirrorInfo c (Inr m) = Ok s \<Longrightarrow>
     (Countries s code = Some b \<longrightarrow> b \<noteq> []) \<and> countrySelector s r \<noteq> Panic p"
proof -
  assume "getMirrorInfo c (Inr m) = Ok s"
  then have ne: "b \<noteq> []" if "Countries s code = Some b" for code b
    using that by (elim getMirrorInfo_Ok) simp
  have "countrySelector s r \<noteq> Panic p"
    using ne by (auto simp: countrySelector_def split: option.splits list.splits)
  with ne show ?thesis by simp
qed

theorem country_buckets_nonempty_witness:
  "getMirrorInfo default_config2 (Inr tie_status2) = Ok tie_snapshot \<and>
   Countries tie_snapshot ''DE'' = Some [Some tie_b, Some tie_c] \<and>
   [Some tie_b, Some tie_c] \<noteq> [] \<and>
   countrySelector tie_snapshot \<lparr>Method = ''GET'', URL_Path = ''/de/core''\<rparr> \<noteq> Panic IndexOutOfRange"
proof -
  note t = country_buckets_nonempty [OF tie_getMirrorInfo, of "''DE''" "[Some tie_b, Some tie_c]"
      "\<lparr>Method = ''GET'', URL_Path = ''/de/core''\<rparr>" IndexOutOfRange]
  have "Countries tie_snapshot ''DE'' = Some [Some tie_b, Some tie_c]"
    by (simp add: tie_snapshot_def)
  with tie_getMirrorInfo t show ?thesis by blast
qed

section \<open>What the builders return, and the country list of \<^verbatim>\<open>kaleidoscope.go\<close>\<close>

text \<open>
  A payload without nil entries always gives a snapshot; a nil entry gives a panic.
\<close>

lemma getData_builds:
  "None \<notin> set (URLs m) \<Longrightarrow> \<exists>s. getData c (Inr m) = Ok s"
proof -
  assume "None \<notin> set (URLs m)"
  from getData_loop_total [OF this, of "minCompletion c" "([], 0, 0)"]
  obtain new h k where "getData_loop (minCompletion c) (URLs m) ([], 0, 0) = Some (new, h, k)"
    by (metis prod_cases3)
  then show ?thesis by (simp add: getData_def)
qed

lemma getData_nil_entry:
  "None \<in> set (URLs m) \<Longrightarrow> getData c (Inr m) = Panic NilDereference"
  by (simp add: getData_def getData_loop_nil)

lemma getMirrorInfo_builds:
  "None \<notin> set (Global m) \<Longrightarrow> \<exists>s. getMirrorInfo c (Inr m) = Ok s"
proof -
  assume "None \<notin> set (Global m)"
  then obtain ms where ms: "deref_all (Global m) = Some ms"
    using deref_all_NoneD [of "Global m"] by (cases "deref_all (Global m)") auto
  let ?sorted = "map Some (sort_Stable (sort_Reverse ByScore_Less) ms)"
  have "None \<notin> set ?sorted" by auto
  from getMirrorInfo_loop_total [OF this, of "minCompletion c" "([], Map.empty, 0, 0)"]
  obtain new cs h k where
    "getMirrorInfo_loop (minCompletion c) ?sorted ([], Map.empty, 0, 0) = Some (new, cs, h, k)"
    by (metis prod_cases4)
  with ms show ?thesis by (simp add: getMirrorInfo_def)
qed

lemma getMirrorInfo_nil_entry:
  "None \<in> set (Global m) \<Longrightarrow> getMirrorInfo c (Inr m) = Panic NilDereference"
proof -
  assume n: "None \<in> set (Global m)"
  have "deref_all (Global m) = None"
  proof (cases "deref_all (Global m)")
    case None
    then show ?thesis .
  next
    case (Some ms)
    from deref_all_SomeD [OF this] n show ?thesis by auto
  qed
  then show ?thesis by (simp add: getMirrorInfo_def)
qed

text \<open>
  \<^verbatim>\<open>kaleidoscope.go\<close> keeps no country index: \<^verbatim>\<open>makeCountryHandler\<close> collects
  the list for a code at each request, and asks for a completion of at least 1.0 whatever
  the configured minimum is. On a snapshot built with a minimum of 1.0 or more (the
  default is 1.0) the list is the snapshot's entries with that code; with a lower
  minimum it can miss entries of the snapshot.
\<close>

lemma country_loop_filter:
  "None \<notin> set xs \<Longrightarrow>
     country_loop code xs res
       = Some (res @ filter (\<lambda>p. case p of None \<Rightarrow> False
                                 | Some x \<Rightarrow> CountryCode x = code \<and> 1 \<le> Completion x) xs)"
proof (induction xs arbitrary: res)
  case Nil
  then show ?case by simp
next
  case (Cons p ps)
  then obtain u where u: "p = Some u" by (cases p) auto
  from Cons.prems have "None \<notin> set ps" by simp
  note ih = Cons.IH [OF this]
  show ?case
    unfolding u by (simp add: ih)
qed

lemma country_loop_on_snapshot:
  assumes "getData c (Inr m) = Ok s" and "1 \<le> minCompletion c"
  shows "country_loop code (URLs s) [] = Some (filter (in_country code) (URLs s))"
proof -
  from getData_Ok [OF assms(1)]
  have s: "URLs s = filter (http_and_complete (minCompletion c)) (URLs m)"
    and nn: "None \<notin> set (URLs m)"
    by simp_all
  have nn': "None \<notin> set (URLs s)" unfolding s using nn by simp
  have same: "(case p of None \<Rightarrow> False | Some x \<Rightarrow> CountryCode x = code \<and> 1 \<le> Completion x)
      = in_country code p" if "p \<in> set (URLs s)" for p
  proof -
    from that have "http_and_complete (minCompletion c) p" unfolding s by simp
    with assms(2) show ?thesis
      by (auto simp: http_and_complete_def in_country_def split: option.splits)
  qed
  have "filter (\<lambda>p. case p of None \<Rightarrow> False
                    | Some x \<Rightarrow> CountryCode x = code \<and> 1 \<le> Completion x) (URLs s)
      = filter (in_country code) (URLs s)"
    by (rule filter_cong) (simp_all add: same)
  with country_loop_filter [OF nn', of code "[]"] show ?thesis by simp
qed

lemma lenient_getData: "getData lenient_config (Inr scenario_status) = Ok lenient_snapshot"
  by (simp add: builder_defs example_defs lenient_config_def lenient_snapshot_def)

lemma lenient_country_handler:
  "filter (in_country ''DE'') (URLs lenient_snapshot) = [Some entry3]"
  "country_loop ''DE'' (URLs lenient_snapshot) [] = Some []"
  "methodOnly ''GET'' (makeCountryHandler first_pick (Some lenient_snapshot))
       \<lparr>Method = ''GET'', URL_Path = ''/country/de''\<rparr>
     = ([http_NotFound], None)"
proof -
  show "filter (in_country ''DE'') (URLs lenient_snapshot) = [Some entry3]"
    by (simp add: lenient_snapshot_def example_defs in_country_def)
  have m: "country_suffix_match ''/country/de'' = Some ''de''"
    by (simp add: country_suffix_match_def lower_letters_def)
  have up: "strings_ToUpper ''de'' = ''DE''"
    by (simp add: strings_ToUpper_def ToUpper_char_def lower_letters_def upper_letters_def)
  show l: "country_loop ''DE'' (URLs lenient_snapshot) [] = Some []"
    by (simp add: lenient_snapshot_def example_defs)
  have u: "URLs lenient_snapshot \<noteq> []" by (simp add: lenient_snapshot_def)
  show "methodOnly ''GET'' (makeCountryHandler first_pick (Some lenient_snapshot))
       \<lparr>Method = ''GET'', URL_Path = ''/country/de''\<rparr>
     = ([http_NotFound], None)"
    by (simp add: methodOnly_def makeCountryHandler_def m up l u)
qed

text \<open>
  Claim C2, on \<^verbatim>\<open>kaleidoscope.go\<close>: with a configured minimum of 0.5 the snapshot
  that \<^verbatim>\<open>getData\<close> builds of the scenario's payload holds the mirror of country
  \<^verbatim>\<open>DE\<close> (completion 0.5), but the list \<^verbatim>\<open>makeCountryHandler\<close> collects for
  \<^verbatim>\<open>DE\<close> is empty, since its loop asks for a completion of at least 1.0, and
  \<^verbatim>\<open>GET /country/de\<close> is answered \<^verbatim>\<open>NotFound\<close>; the claim has the list for a
  country hold exactly the snapshot's entries of that country.
\<close>

theorem country_list_misses_snapshot_entry:
  "getData lenient_config (Inr scenario_status) = Ok lenient_snapshot \<and>
   URLs lenient_snapshot = [Some entry1, Some entry3] \<and>
   filter (in_country ''DE'') (URLs lenient_snapshot) = [Some entry3] \<and>
   country_loop ''DE'' (URLs lenient_snapshot) [] = Some [] \<and>
   methodOnly ''GET'' (makeCountryHandler first_pick (Some lenient_snapshot))
       \<lparr>Method = ''GET'', URL_Path = ''/country/de''\<rparr>
     = ([http_NotFound], None)"
proof -
  have "URLs lenient_snapshot = [Some entry1, Some entry3]"
    by (simp add: lenient_snapshot_def)
  with lenient_getData lenient_country_handler show ?thesis
    by (intro conjI)
qed

section \<open>The handlers on an empty snapshot\<close>

lemma empty_getData: "getData default_config (Inr empty_status) = Ok empty_status"
  by (simp add: getData_def empty_status_def)

lemma empty_getMirrorInfo: "getMirrorInfo default_config2 (Inr empty_status2) = Ok empty_status2"
  by (simp add: getMirrorInfo_def sort_Stable_def empty_status2_def)


text \<open>
  \<^verbatim>\<open>makeGlobalHandler\<close> has no \<^verbatim>\<open>return\<close> after the 500 and goes on to
  \<^verbatim>\<open>rand.Intn(0)\<close>.
\<close>

lemma makeGlobalHandler_empty_snapshot:
  "Method r = ''GET'' \<Longrightarrow> URLs st = [] \<Longrightarrow>
     methodOnly ''GET'' (makeGlobalHandler rnd (Some st)) r
       = ([http_Error ''Internal Server Error'' 500], Some IntnInvalidArgument)"
  by (simp add: methodOnly_def makeGlobalHandler_def rand_Intn_def http_StatusText_def)

text \<open>
  Claim C3, on \<^verbatim>\<open>kaleidoscope.go\<close>: for \<^verbatim>\<open>GET /global\<close> on the snapshot built
  from an empty payload, \<^verbatim>\<open>makeGlobalHandler\<close> writes the 500 and then panics in
  \<^verbatim>\<open>rand.Intn\<close>, where the claim has it stop after the 500.
\<close>

theorem global_handler_runs_on_after_500:
  "getData default_config (Inr empty_status) = Ok empty_status \<and>
   methodOnly ''GET'' (makeGlobalHandler first_pick (Some empty_status))
       \<lparr>Method = ''GET'', URL_Path = ''/global''\<rparr>
     = ([http_Error ''Internal Server Error'' 500], Some IntnInvalidArgument)"
proof -
  have "URLs empty_status = []" by (simp add: empty_status_def)
  then show ?thesis by (simp add: empty_getData makeGlobalHandler_empty_snapshot)
qed

section \<open>Country codes in the request path\<close>

lemma country_suffix_match_iff:
  "country_suffix_match p = Some code \<longleftrightarrow>
     (\<exists>front a b. p = front @ [CHR ''/'', a, b] \<and> a \<in> set (lower_letters @ upper_letters)
        \<and> b \<in> set (lower_letters @ upper_letters) \<and> code = [a, b])"
proof
  assume m: "country_suffix_match p = Some code"
  then obtain b a s front where r: "rev p = b # a # s # front"
    by (auto simp: country_suffix_match_def split: list.splits)
  then have p: "p = rev front @ [s, a, b]"
    by (metis rev_rev_ident rev.simps(2) append.assoc append_Cons append_Nil)
  from m r have "s = CHR ''/''" "a \<in> set (lower_letters @ upper_letters)"
    "b \<in> set (lower_letters @ upper_letters)" "code = [a, b]"
    by (auto simp: country_suffix_match_def split: if_splits)
  with p show "\<exists>front a b. p = front @ [CHR ''/'', a, b] \<and> a \<in> set (lower_letters @ upper_letters)
        \<and> b \<in> set (lower_letters @ upper_letters) \<and> code = [a, b]"
    by blast
next
  assume "\<exists>front a b. p = front @ [CHR ''/'', a, b] \<and> a \<in> set (lower_letters @ upper_letters)
        \<and> b \<in> set (lower_letters @ upper_letters) \<and> code = [a, b]"
  then obtain front a b where "p = front @ [CHR ''/'', a, b]"
    "a \<in> set (lower_letters @ upper_letters)" "b \<in> set (lower_letters @ upper_letters)"
    "code = [a, b]"
    by blast
  then show "country_suffix_match p = Some code"
    by (simp add: country_suffix_match_def)
qed

lemma country_prefix_match_iff:
  "country_prefix_match p = Some (whole, sub) \<longleftrightarrow>
     (\<exists>a b. a \<in> set lower_letters \<and> b \<in> set lower_letters \<and> sub = [a, b] \<and>
        ((p = [CHR ''/'', a, b] \<and> whole = [CHR ''/'', a, b]) \<or>
         (\<exists>rest. p = [CHR ''/'', a, b, CHR ''/''] @ rest \<and> whole = [CHR ''/'', a, b, CHR ''/''])))"
proof
  assume "country_prefix_match p = Some (whole, sub)"
  then show "\<exists>a b. a \<in> set lower_letters \<and> b \<in> set lower_letters \<and> sub = [a, b] \<and>
        ((p = [CHR ''/'', a, b] \<and> whole = [CHR ''/'', a, b]) \<or>
         (\<exists>rest. p = [CHR ''/'', a, b, CHR ''/''] @ rest \<and> whole = [CHR ''/'', a, b, CHR ''/'']))"
    by (auto simp: country_prefix_match_def split: list.splits if_splits)
next
  assume "\<exists>a b. a \<in> set lower_letters \<and> b \<in> set lower_letters \<and> sub = [a, b] \<and>
        ((p = [CHR ''/'', a, b] \<and> whole = [CHR ''/'', a, b]) \<or>
         (\<exists>rest. p = [CHR ''/'', a, b, CHR ''/''] @ rest \<and> whole = [CHR ''/'', a, b, CHR ''/'']))"
  then show "country_prefix_match p = Some (whole, sub)"
    by (auto simp: country_prefix_match_def)
qed

text \<open>\<^verbatim>\<open>ToUpper\<close> on the letters of the two character classes.\<close>

lemma letters_distinct: "distinct (lower_letters @ upper_letters)"
  by (simp add: lower_letters_def upper_letters_def)

lemma letters_length: "length lower_letters = length upper_letters"
  by (simp add: lower_letters_def upper_letters_def)

lemma ToUpper_char_lower: "a \<in> set lower_letters \<Longrightarrow> ToUpper_char a \<in> set upper_letters"
proof -
  assume "a \<in> set lower_letters"
  then obtain C where C: "map_of (zip lower_letters upper_letters) a = Some C"
    using map_of_zip_is_Some [OF letters_length] by blast
  then have "(a, C) \<in> set (zip lower_letters upper_letters)" by (rule map_of_SomeD)
  then have "C \<in> set upper_letters" by (rule set_zip_rightD)
  with C show ?thesis by (simp add: ToUpper_char_def)
qed

lemma ToUpper_char_upper: "a \<in> set upper_letters \<Longrightarrow> ToUpper_char a = a"
proof -
  assume "a \<in> set upper_letters"
  with letters_distinct have "a \<notin> set lower_letters" by auto
  then have "map_of (zip lower_letters upper_letters) a = None"
    using map_of_zip_is_None [OF letters_length] by blast
  then show ?thesis by (simp add: ToUpper_char_def)
qed

lemma ToUpper_char_letter:
  assumes "a \<in> set (lower_letters @ upper_letters)"
  shows "ToUpper_char a \<in> set upper_letters" and "ToUpper_char (ToUpper_char a) = ToUpper_char a"
proof -
  show u: "ToUpper_char a \<in> set upper_letters"
    using assms ToUpper_char_lower [of a] ToUpper_char_upper [of a] by auto
  show "ToUpper_char (ToUpper_char a) = ToUpper_char a"
    using u by (rule ToUpper_char_upper)
qed


text \<open>
  \<^verbatim>\<open>makeCountryHandler\<close> answers a path that ends in a country code as it answers
  the code in upper case.
\<close>

lemma makeCountryHandler_any_case:
  assumes "country_suffix_match (URL_Path r) = Some code"
  shows "makeCountryHandler rnd val r
           = makeCountryHandler rnd val (r\<lparr>URL_Path := CHR ''/'' # strings_ToUpper code\<rparr>)"
proof -
  from assms obtain a b where code: "code = [a, b]"
    and a: "a \<in> set (lower_letters @ upper_letters)" and b: "b \<in> set (lower_letters @ upper_letters)"
    unfolding country_suffix_match_iff by blast
  have up: "strings_ToUpper code = [ToUpper_char a, ToUpper_char b]"
    by (simp add: code strings_ToUpper_def)
  have "\<exists>front x y. CHR ''/'' # strings_ToUpper code = front @ [CHR ''/'', x, y]
          \<and> x \<in> set (lower_letters @ upper_letters) \<and> y \<in> set (lower_letters @ upper_letters)
          \<and> strings_ToUpper code = [x, y]"
    using ToUpper_char_letter(1) [OF a] ToUpper_char_letter(1) [OF b] up
    by (intro exI [of _ "[]"] exI [of _ "ToUpper_char a"] exI [of _ "ToUpper_char b"]) simp
  then have m: "country_suffix_match (CHR ''/'' # strings_ToUpper code) = Some (strings_ToUpper code)"
    unfolding country_suffix_match_iff .
  have idem: "strings_ToUpper (strings_ToUpper code) = strings_ToUpper code"
    using ToUpper_char_letter(2) [OF a] ToUpper_char_letter(2) [OF b]
    by (simp add: code strings_ToUpper_def)
  show ?thesis
    by (simp add: makeCountryHandler_def assms m idem)
qed


lemma countrySelector_not_found_iff:
  "country_prefix_match (URL_Path r) = Some (whole, sub) \<Longrightarrow>
     countrySelector st r = Err CountryNotFound \<longleftrightarrow> Countries st (strings_ToUpper sub) = None"
  by (simp add: countrySelector_def split: option.splits list.splits)












lemma strings_ToUpper_us: "strings_ToUpper ''us'' = ''US''"
  by (simp add: strings_ToUpper_def ToUpper_char_def lower_letters_def upper_letters_def)


section \<open>The redirect\<close>

lemma country_prefix_match_prefix:
  "country_prefix_match p = Some (whole, sub) \<Longrightarrow> p = whole @ drop (length whole) p"
  unfolding country_prefix_match_iff by auto

text \<open>
  Claim C8. For a \<^verbatim>\<open>GET\<close> whose path is \<^verbatim>\<open>/country\<close> followed by a path
  \<open>p\<close> that starts with a country code, on a snapshot that is not empty and has a
  bucket for the code in upper case, the handler that \<^verbatim>\<open>main\<close> registers cuts the
  matched prefix off \<open>p\<close> and redirects with 302 to the URL of the bucket's first
  mirror, parsed, with \<^verbatim>\<open>path.Join\<close> of its path and the rest of \<open>p\<close> as the path.
\<close>

theorem country_redirect_joins_subpath:
  "URL_Path r = ''/country'' @ p \<Longrightarrow> Method r = ''GET'' \<Longrightarrow> Global c \<noteq> [] \<Longrightarrow>
   country_prefix_match p = Some (whole, sub) \<Longrightarrow>
   Countries c (strings_ToUpper sub) = Some (Some mirror # others) \<Longrightarrow>
   url_Parse (URL mirror) = Some u \<Longrightarrow>
     p = whole @ drop (length whole) p \<and>
     countryHandler url_Parse url_String (Some c) r
       = ([http_Redirect (url_String (u\<lparr>Path := path_Join [Path u, drop (length whole) p]\<rparr>)) 302],
          None)"
proof -
  assume path: "URL_Path r = ''/country'' @ p" and get: "Method r = ''GET''"
    and nonempty: "Global c \<noteq> []" and m: "country_prefix_match p = Some (whole, sub)"
    and bucket: "Countries c (strings_ToUpper sub) = Some (Some mirror # others)"
    and parsed: "url_Parse (URL mirror) = Some u"
  let ?r = "r\<lparr>URL_Path := p\<rparr>"
  have strip: "countryHandler url_Parse url_String (Some c) r
      = redirector url_Parse url_String (Some c) countrySelector ?r"
    by (simp add: countryHandler_def http_StripPrefix_def path)
  have sel: "countrySelector c ?r = Ok (Some mirror, ?r\<lparr>URL_Path := drop (length whole) p\<rparr>)"
    by (simp add: countrySelector_def m bucket)
  have "redirector url_Parse url_String (Some c) countrySelector ?r
      = ([http_Redirect (url_String (u\<lparr>Path := path_Join [Path u, drop (length whole) p]\<rparr>)) 302],
          None)"
    by (simp add: redirector_def get nonempty sel parsed)
  with strip country_prefix_match_prefix [OF m] show ?thesis by simp
qed

lemma example_us_getMirrorInfo:
  "getMirrorInfo default_config2 (Inr example_us_status2) = Ok example_us_snapshot"
  by (simp add: builder_defs example_defs example_us_status2_def example_us_mirror_def
      example_us_snapshot_def)

lemma example_path_Join:
  "path_Join [''/archlinux/'', ''core/os/x86_64/foo.pkg''] = ''/archlinux/core/os/x86_64/foo.pkg''"
  by (simp add: path_Join_def path_Clean_def clean_step_def)

lemma example_url_Parse:
  "simple_url_Parse ''https://mirror.example/archlinux/''
     = Some \<lparr>Scheme = ''https'', Host = ''mirror.example'', Path = ''/archlinux/''\<rparr>"
  by (simp add: simple_url_Parse_def)

theorem country_redirect_joins_subpath_witness:
  "getMirrorInfo default_config2 (Inr example_us_status2) = Ok example_us_snapshot \<and>
   URL_Path \<lparr>Method = ''GET'', URL_Path = ''/country/us/core/os/x86_64/foo.pkg''\<rparr>
     = ''/country'' @ ''/us/core/os/x86_64/foo.pkg'' \<and>
   Global example_us_snapshot \<noteq> [] \<and>
   country_prefix_match ''/us/core/os/x86_64/foo.pkg'' = Some (''/us/'', ''us'') \<and>
   Countries example_us_snapshot (strings_ToUpper ''us'') = Some [Some example_us_mirror] \<and>
   simple_url_Parse (URL example_us_mirror)
     = Some \<lparr>Scheme = ''https'', Host = ''mirror.example'', Path = ''/archlinux/''\<rparr> \<and>
   countryHandler simple_url_Parse simple_url_String (Some example_us_snapshot)
       \<lparr>Method = ''GET'', URL_Path = ''/country/us/core/os/x86_64/foo.pkg''\<rparr>
     = ([http_Redirect ''https://mirror.example/archlinux/core/os/x86_64/foo.pkg'' 302], None)"
proof -
  let ?r = "\<lparr>Method = ''GET'', URL_Path = ''/country/us/core/os/x86_64/foo.pkg''\<rparr>"
  let ?u = "\<lparr>Scheme = ''https'', Host = ''mirror.example'', Path = ''/archlinux/''\<rparr>"
  have h1: "URL_Path ?r = ''/country'' @ ''/us/core/os/x86_64/foo.pkg''" by simp
  have h2: "Method ?r = ''GET''" by simp
  have h3: "Global example_us_snapshot \<noteq> []" by (simp add: example_us_snapshot_def)
  have h4: "country_prefix_match ''/us/core/os/x86_64/foo.pkg'' = Some (''/us/'', ''us'')"
    by (simp add: country_prefix_match_def lower_letters_def)
  have h5: "Countries example_us_snapshot (strings_ToUpper ''us'') = Some (Some example_us_mirror # [])"
    by (simp add: strings_ToUpper_us example_us_snapshot_def)
  have h6: "simple_url_Parse (URL example_us_mirror) = Some ?u"
    by (simp add: example_us_mirror_def example_mirror_def example_url_Parse)
  note t = country_redirect_joins_subpath [where url_Parse = simple_url_Parse
      and url_String = simple_url_String, OF h1 h2 h3 h4 h5 h6]
  have "simple_url_String (?u\<lparr>Path := path_Join [Path ?u, drop (length ''/us/'') ''/us/core/os/x86_64/foo.pkg'']\<rparr>)
      = ''https://mirror.example/archlinux/core/os/x86_64/foo.pkg''"
    by (simp add: example_path_Join simple_url_String_def)
  with t have "countryHandler simple_url_Parse simple_url_String (Some example_us_snapshot) ?r
     = ([http_Redirect ''https://mirror.example/archlinux/core/os/x86_64/foo.pkg'' 302], None)"
    by simp
  with example_us_getMirrorInfo h1 h3 h4 h5 h6 show ?thesis by simp
qed

section \<open>Runs of the refresh loop\<close>

lemma update_Inl:
  "update c (Inl e # rest) st
     = update c rest (st\<lparr>trace := trace st @ [LogPerforming, Fetched, LogError e]\<rparr>)"
  by (simp add: getData_def)

lemma update2_Inl:
  "update2 c (Inl e # rest) st
     = update2 c rest (st\<lparr>trace := trace st @ [LogPerforming, Fetched, LogError e]\<rparr>)"
  by (simp add: getMirrorInfo_def)

text \<open>A run that has not crashed is continued by the run on the answers that follow.\<close>

lemma update_append:
  "crashed st = None \<Longrightarrow> crashed (update c rs st) = None \<Longrightarrow>
     update c (rs @ rs') st = update c rs' (update c rs st)"
proof (induction rs arbitrary: st)
  case Nil
  then show ?case by simp
next
  case (Cons resp rs)
  show ?case
  proof (cases "getData c resp")
    case (Ok newM)
    with Cons.prems Cons.IH [of "st\<lparr>status_val := Some newM,
        trace := trace st @ [LogPerforming, Fetched, Stored newM, LogComplete, TickAwaited]\<rparr>"]
    show ?thesis by simp
  next
    case (Err err)
    with Cons.prems Cons.IH [of "st\<lparr>trace := trace st @ [LogPerforming, Fetched, LogError err]\<rparr>"]
    show ?thesis by simp
  next
    case (Panic p)
    with Cons.prems show ?thesis by simp
  qed
qed

lemma update2_append:
  "crashed st = None \<Longrightarrow> crashed (update2 c rs st) = None \<Longrightarrow>
     update2 c (rs @ rs') st = update2 c rs' (update2 c rs st)"
proof (induction rs arbitrary: st)
  case Nil
  then show ?case by simp
next
  case (Cons resp rs)
  show ?case
  proof (cases "getMirrorInfo c resp")
    case (Ok newM)
    with Cons.prems Cons.IH [of "st\<lparr>status_val := Some newM,
        trace := trace st @ [LogPerforming, Fetched, Stored newM, LogComplete]
                   @ (if once st then [] else [DoneSent]) @ [TickAwaited],
        once := True\<rparr>"]
    show ?thesis by simp
  next
    case (Err err)
    with Cons.prems Cons.IH [of "st\<lparr>trace := trace st @ [LogPerforming, Fetched, LogError err]\<rparr>"]
    show ?thesis by simp
  next
    case (Panic p)
    with Cons.prems show ?thesis by simp
  qed
qed

text \<open>A failed fetch is the builder's error.\<close>

lemma getData_Inl: "getData c (Inl e) = Err e"
  by (simp add: getData_def)

lemma getMirrorInfo_Inl: "getMirrorInfo c (Inl e) = Err e"
  by (simp add: getMirrorInfo_def)

text \<open>The trace only grows, and every turn starts with a fetch.\<close>

lemma update_trace_extends: "\<exists>tl. trace (update c rs st) = trace st @ tl"
proof (induction rs arbitrary: st)
  case Nil
  then show ?case by simp
next
  case (Cons resp rs)
  show ?case
  proof (cases "getData c resp")
    case (Ok newM)
    from Cons.IH [of "st\<lparr>status_val := Some newM,
        trace := trace st @ [LogPerforming, Fetched, Stored newM, LogComplete, TickAwaited]\<rparr>"]
    show ?thesis using Ok by auto
  next
    case (Err err)
    from Cons.IH [of "st\<lparr>trace := trace st @ [LogPerforming, Fetched, LogError err]\<rparr>"]
    show ?thesis using Err by auto
  next
    case (Panic p)
    then show ?thesis by simp
  qed
qed

lemma update_first_events:
  "\<exists>tl. trace (update c (resp # rest) st) = trace st @ [LogPerforming, Fetched] @ tl"
proof (cases "getData c resp")
  case (Ok newM)
  from update_trace_extends [of c rest "st\<lparr>status_val := Some newM,
        trace := trace st @ [LogPerforming, Fetched, Stored newM, LogComplete, TickAwaited]\<rparr>"]
  show ?thesis using Ok by auto
next
  case (Err err)
  from update_trace_extends [of c rest "st\<lparr>trace := trace st @ [LogPerforming, Fetched, LogError err]\<rparr>"]
  show ?thesis using Err by auto
next
  case (Panic p)
  then show ?thesis by simp
qed

text \<open>
  After a failed fetch the loop fetches again at once: \<^verbatim>\<open>continue\<close> skips the receive
  from the ticker.
\<close>

lemma update_fetches_again:
  "\<exists>tl. trace (update c (Inl e # resp # rest) st)
     = trace st @ [LogPerforming, Fetched, LogError e, LogPerforming, Fetched] @ tl"
proof -
  let ?st = "st\<lparr>trace := trace st @ [LogPerforming, Fetched, LogError e]\<rparr>"
  from update_first_events [of c resp rest ?st]
  obtain tl where "trace (update c (resp # rest) ?st) = trace ?st @ [LogPerforming, Fetched] @ tl"
    by blast
  then have "trace (update c (Inl e # resp # rest) st)
     = trace st @ [LogPerforming, Fetched, LogError e, LogPerforming, Fetched] @ tl"
    unfolding update_Inl by simp
  then show ?thesis by blast
qed

lemma update2_trace_extends: "\<exists>tl. trace (update2 c rs st) = trace st @ tl"
proof (induction rs arbitrary: st)
  case Nil
  then show ?case by simp
next
  case (Cons resp rs)
  show ?case
  proof (cases "getMirrorInfo c resp")
    case (Ok newM)
    from Cons.IH [of "st\<lparr>status_val := Some newM,
        trace := trace st @ [LogPerforming, Fetched, Stored newM, LogComplete]
                   @ (if once st then [] else [DoneSent]) @ [TickAwaited],
        once := True\<rparr>"]
    show ?thesis using Ok by auto
  next
    case (Err err)
    from Cons.IH [of "st\<lparr>trace := trace st @ [LogPerforming, Fetched, LogError err]\<rparr>"]
    show ?thesis using Err by auto
  next
    case (Panic p)
    then show ?thesis by simp
  qed
qed

lemma update2_first_events:
  "\<exists>tl. trace (update2 c (resp # rest) st) = trace st @ [LogPerforming, Fetched] @ tl"
proof (cases "getMirrorInfo c resp")
  case (Ok newM)
  from update2_trace_extends [of c rest "st\<lparr>status_val := Some newM,
        trace := trace st @ [LogPerforming, Fetched, Stored newM, LogComplete]
                   @ (if once st then [] else [DoneSent]) @ [TickAwaited],
        once := True\<rparr>"]
  show ?thesis using Ok by auto
next
  case (Err err)
  from update2_trace_extends [of c rest "st\<lparr>trace := trace st @ [LogPerforming, Fetched, LogError err]\<rparr>"]
  show ?thesis using Err by auto
next
  case (Panic p)
  then show ?thesis by simp
qed

lemma update2_fetches_again:
  "\<exists>tl. trace (update2 c (Inl e # resp # rest) st)
     = trace st @ [LogPerforming, Fetched, LogError e, LogPerforming, Fetched] @ tl"
proof -
  let ?st = "st\<lparr>trace := trace st @ [LogPerforming, Fetched, LogError e]\<rparr>"
  from update2_first_events [of c resp rest ?st]
  obtain tl where "trace (update2 c (resp # rest) ?st) = trace ?st @ [LogPerforming, Fetched] @ tl"
    by blast
  then have "trace (update2 c (Inl e # resp # rest) st)
     = trace st @ [LogPerforming, Fetched, LogError e, LogPerforming, Fetched] @ tl"
    unfolding update2_Inl by simp
  then show ?thesis by blast
qed

lemma run_scenario:
  "update default_config [Inr scenario_status] updater_init
     = \<lparr>status_val = Some scenario_snapshot,
        trace = [LogPerforming, Fetched, Stored scenario_snapshot, LogComplete, TickAwaited],
        crashed = None\<rparr>"
  by (simp add: scenario_getData updater_init_def)

lemma run2_scenario:
  "update2 default_config2 [Inr scenario_status2] updater2_init
     = \<lparr>status_val = Some scenario_snapshot2,
        trace = [LogPerforming, Fetched, Stored scenario_snapshot2, LogComplete, DoneSent, TickAwaited],
        crashed = None, once = True\<rparr>"
  by (simp add: scenario_getMirrorInfo updater2_init_def)

lemma run_scenario_failure_empty:
  "update default_config [Inr scenario_status, Inl Transport, Inr empty_status] updater_init
     = \<lparr>status_val = Some empty_status,
        trace = [LogPerforming, Fetched, Stored scenario_snapshot, LogComplete, TickAwaited,
                 LogPerforming, Fetched, LogError Transport,
                 LogPerforming, Fetched, Stored empty_status, LogComplete, TickAwaited],
        crashed = None\<rparr>"
  by (simp add: scenario_getData getData_Inl empty_getData updater_init_def)

lemma run2_scenario_failure_empty:
  "update2 default_config2 [Inr scenario_status2, Inl Transport, Inr empty_status2] updater2_init
     = \<lparr>status_val = Some empty_status2,
        trace = [LogPerforming, Fetched, Stored scenario_snapshot2, LogComplete, DoneSent, TickAwaited,
                 LogPerforming, Fetched, LogError Transport,
                 LogPerforming, Fetched, Stored empty_status2, LogComplete, TickAwaited],
        crashed = None, once = True\<rparr>"
  by (simp add: scenario_getMirrorInfo getMirrorInfo_Inl empty_getMirrorInfo updater2_init_def)

text \<open>
  Claim C9. At any point of a run that has not crashed, a fetch that fails (in transport
  or in decoding) leaves the stored snapshot as it is, adds only the log of the error to
  what the loop did, and does not end the loop: whatever answer follows, the loop
  fetches again, and when the builder makes a snapshot of that answer, the loop stores
  it. For both variants of \<^verbatim>\<open>update\<close>.
\<close>

theorem failed_fetch_keeps_snapshot:
  "(crashed (update c rs updater_init) = None \<longrightarrow>
      status_val (update c (rs @ [Inl e]) updater_init) = status_val (update c rs updater_init) \<and>
      crashed (update c (rs @ [Inl e]) updater_init) = None \<and>
      trace (update c (rs @ [Inl e]) updater_init)
        = trace (update c rs updater_init) @ [LogPerforming, Fetched, LogError e] \<and>
      (\<exists>tl. trace (update c (rs @ Inl e # resp # rest) updater_init)
        = trace (update c rs updater_init)
            @ [LogPerforming, Fetched, LogError e, LogPerforming, Fetched] @ tl) \<and>
      (getData c resp = Ok s \<longrightarrow>
         status_val (update c (rs @ [Inl e, resp]) updater_init) = Some s \<and>
         trace (update c (rs @ [Inl e, resp]) updater_init)
           = trace (update c rs updater_init)
               @ [LogPerforming, Fetched, LogError e,
                  LogPerforming, Fetched, Stored s, LogComplete, TickAwaited]) \<and>
      update c (rs @ Inl e # rest) updater_init
        = update c rest (update c (rs @ [Inl e]) updater_init)) \<and>
   (crashed (update2 c' rs' updater2_init) = None \<longrightarrow>
      status_val (update2 c' (rs' @ [Inl e]) updater2_init)
        = status_val (update2 c' rs' updater2_init) \<and>
      crashed (update2 c' (rs' @ [Inl e]) updater2_init) = None \<and>
      trace (update2 c' (rs' @ [Inl e]) updater2_init)
        = trace (update2 c' rs' updater2_init) @ [LogPerforming, Fetched, LogError e] \<and>
      (\<exists>tl. trace (update2 c' (rs' @ Inl e # resp' # rest') updater2_init)
        = trace (update2 c' rs' updater2_init)
            @ [LogPerforming, Fetched, LogError e, LogPerforming, Fetched] @ tl) \<and>
      (getMirrorInfo c' resp' = Ok s' \<longrightarrow>
         status_val (update2 c' (rs' @ [Inl e, resp']) updater2_init) = Some s' \<and>
         (\<exists>tl. trace (update2 c' (rs' @ [Inl e, resp']) updater2_init)
           = trace (update2 c' rs' updater2_init)
               @ [LogPerforming, Fetched, LogError e,
                  LogPerforming, Fetched, Stored s', LogComplete] @ tl)) \<and>
      update2 c' (rs' @ Inl e # rest') updater2_init
        = update2 c' rest' (update2 c' (rs' @ [Inl e]) updater2_init))"
proof (intro conjI impI)
  assume ok: "crashed (update c rs updater_init) = None"
  let ?st = "update c rs updater_init"
  have init: "crashed (updater_init :: MirrorStatus updater) = None"
    by (simp add: updater_init_def)
  have cont: "update c (rs @ xs) updater_init = update c xs ?st" for xs
    by (rule update_append [OF init ok])
  show "status_val (update c (rs @ [Inl e]) updater_init) = status_val ?st"
    unfolding cont by (simp add: getData_Inl)
  show c: "crashed (update c (rs @ [Inl e]) updater_init) = None"
    unfolding cont using ok by (simp add: getData_Inl)
  show "trace (update c (rs @ [Inl e]) updater_init)
      = trace ?st @ [LogPerforming, Fetched, LogError e]"
    unfolding cont by (simp add: getData_Inl)
  show "\<exists>tl. trace (update c (rs @ Inl e # resp # rest) updater_init)
      = trace ?st @ [LogPerforming, Fetched, LogError e, LogPerforming, Fetched] @ tl"
    unfolding cont by (rule update_fetches_again)
  have "update c ((rs @ [Inl e]) @ rest) updater_init
      = update c rest (update c (rs @ [Inl e]) updater_init)"
    by (rule update_append [OF init c])
  then show "update c (rs @ Inl e # rest) updater_init
      = update c rest (update c (rs @ [Inl e]) updater_init)"
    by simp
  {
    assume built: "getData c resp = Ok s"
    show "status_val (update c (rs @ [Inl e, resp]) updater_init) = Some s"
      unfolding cont by (simp add: getData_Inl built)
    show "trace (update c (rs @ [Inl e, resp]) updater_init)
        = trace ?st @ [LogPerforming, Fetched, LogError e,
                       LogPerforming, Fetched, Stored s, LogComplete, TickAwaited]"
      unfolding cont by (simp add: getData_Inl built)
  }
next
  assume ok: "crashed (update2 c' rs' updater2_init) = None"
  let ?st = "update2 c' rs' updater2_init"
  have init: "crashed (updater2_init :: MirrorStatus2 updater2) = None"
    by (simp add: updater2_init_def)
  have cont: "update2 c' (rs' @ xs) updater2_init = update2 c' xs ?st" for xs
    by (rule update2_append [OF init ok])
  show "status_val (update2 c' (rs' @ [Inl e]) updater2_init) = status_val ?st"
    unfolding cont by (simp add: getMirrorInfo_Inl)
  show c: "crashed (update2 c' (rs' @ [Inl e]) updater2_init) = None"
    unfolding cont using ok by (simp add: getMirrorInfo_Inl)
  show "trace (update2 c' (rs' @ [Inl e]) updater2_init)
      = trace ?st @ [LogPerforming, Fetched, LogError e]"
    unfolding cont by (simp add: getMirrorInfo_Inl)
  show "\<exists>tl. trace (update2 c' (rs' @ Inl e # resp' # rest') updater2_init)
      = trace ?st @ [LogPerforming, Fetched, LogError e, LogPerforming, Fetched] @ tl"
    unfolding cont by (rule update2_fetches_again)
  have "update2 c' ((rs' @ [Inl e]) @ rest') updater2_init
      = update2 c' rest' (update2 c' (rs' @ [Inl e]) updater2_init)"
    by (rule update2_append [OF init c])
  then show "update2 c' (rs' @ Inl e # rest') updater2_init
      = update2 c' rest' (update2 c' (rs' @ [Inl e]) updater2_init)"
    by simp
  {
    assume built: "getMirrorInfo c' resp' = Ok s'"
    show "status_val (update2 c' (rs' @ [Inl e, resp']) updater2_init) = Some s'"
      unfolding cont by (simp add: getMirrorInfo_Inl built)
    show "\<exists>tl. trace (update2 c' (rs' @ [Inl e, resp']) updater2_init)
        = trace ?st @ [LogPerforming, Fetched, LogError e,
                       LogPerforming, Fetched, Stored s', LogComplete] @ tl"
      unfolding cont by (simp add: getMirrorInfo_Inl built)
  }
qed

theorem failed_fetch_keeps_snapshot_witness:
  "crashed (update default_config [Inr scenario_status] updater_init) = None \<and>
   status_val (update default_config [Inr scenario_status] updater_init) = Some scenario_snapshot \<and>
   status_val (update default_config ([Inr scenario_status] @ [Inl Transport]) updater_init)
     = Some scenario_snapshot \<and>
   crashed (update default_config ([Inr scenario_status] @ [Inl Transport]) updater_init) = None \<and>
   getData default_config (Inr empty_status) = Ok empty_status \<and>
   status_val (update default_config ([Inr scenario_status] @ [Inl Transport, Inr empty_status])
       updater_init) = Some empty_status \<and>
   trace (update default_config ([Inr scenario_status] @ [Inl Transport, Inr empty_status])
       updater_init)
     = [LogPerforming, Fetched, Stored scenario_snapshot, LogComplete, TickAwaited,
        LogPerforming, Fetched, LogError Transport,
        LogPerforming, Fetched, Stored empty_status, LogComplete, TickAwaited] \<and>
   crashed (update2 default_config2 [Inr scenario_status2] updater2_init) = None \<and>
   status_val (update2 default_config2 [Inr scenario_status2] updater2_init) = Some scenario_snapshot2 \<and>
   status_val (update2 default_config2 ([Inr scenario_status2] @ [Inl Transport]) updater2_init)
     = Some scenario_snapshot2 \<and>
   crashed (update2 default_config2 ([Inr scenario_status2] @ [Inl Transport]) updater2_init) = None \<and>
   getMirrorInfo default_config2 (Inr empty_status2) = Ok empty_status2 \<and>
   status_val (update2 default_config2 ([Inr scenario_status2] @ [Inl Transport, Inr empty_status2])
       updater2_init) = Some empty_status2 \<and>
   trace (update2 default_config2 ([Inr scenario_status2] @ [Inl Transport, Inr empty_status2])
       updater2_init)
     = [LogPerforming, Fetched, Stored scenario_snapshot2, LogComplete, DoneSent, TickAwaited,
        LogPerforming, Fetched, LogError Transport,
        LogPerforming, Fetched, Stored empty_status2, LogComplete, TickAwaited]"
proof -
  have h: "crashed (update default_config [Inr scenario_status] updater_init) = None"
    and s: "status_val (update default_config [Inr scenario_status] updater_init) = Some scenario_snapshot"
    and tr: "trace (update default_config [Inr scenario_status] updater_init)
      = [LogPerforming, Fetched, Stored scenario_snapshot, LogComplete, TickAwaited]"
    unfolding run_scenario by simp_all
  have h2: "crashed (update2 default_config2 [Inr scenario_status2] updater2_init) = None"
    and s2: "status_val (update2 default_config2 [Inr scenario_status2] updater2_init)
      = Some scenario_snapshot2"
    unfolding run2_scenario by simp_all
  note t = failed_fetch_keeps_snapshot [where c = default_config and rs = "[Inr scenario_status]"
      and e = Transport and resp = "Inr empty_status" and s = empty_status and rest = "[]"
      and c' = default_config2 and rs' = "[Inr scenario_status2]"
      and resp' = "Inr empty_status2" and s' = empty_status2 and rest' = "[]"]
  from t h have a: "status_val (update default_config ([Inr scenario_status] @ [Inl Transport]) updater_init)
        = status_val (update default_config [Inr scenario_status] updater_init)"
    and b: "crashed (update default_config ([Inr scenario_status] @ [Inl Transport]) updater_init) = None"
    by blast+
  from t h empty_getData have c: "status_val (update default_config
        ([Inr scenario_status] @ [Inl Transport, Inr empty_status]) updater_init) = Some empty_status"
    and d: "trace (update default_config
        ([Inr scenario_status] @ [Inl Transport, Inr empty_status]) updater_init)
      = trace (update default_config [Inr scenario_status] updater_init)
          @ [LogPerforming, Fetched, LogError Transport,
             LogPerforming, Fetched, Stored empty_status, LogComplete, TickAwaited]"
    by blast+
  from t h2 have a2: "status_val (update2 default_config2 ([Inr scenario_status2] @ [Inl Transport]) updater2_init)
        = status_val (update2 default_config2 [Inr scenario_status2] updater2_init)"
    and b2: "crashed (update2 default_config2 ([Inr scenario_status2] @ [Inl Transport]) updater2_init) = None"
    by blast+
  from t h2 empty_getMirrorInfo have c2: "status_val (update2 default_config2
        ([Inr scenario_status2] @ [Inl Transport, Inr empty_status2]) updater2_init) = Some empty_status2"
    by blast
  have d2: "trace (update2 default_config2
        ([Inr scenario_status2] @ [Inl Transport, Inr empty_status2]) updater2_init)
      = [LogPerforming, Fetched, Stored scenario_snapshot2, LogComplete, DoneSent, TickAwaited,
         LogPerforming, Fetched, LogError Transport,
         LogPerforming, Fetched, Stored empty_status2, LogComplete, TickAwaited]"
    using run2_scenario_failure_empty by simp
  from h s a b empty_getData c d tr h2 s2 a2 b2 empty_getMirrorInfo c2 d2 show ?thesis
    by (simp only: append_Cons append_Nil simp_thms)
qed

text \<open>
  Claim C6, on both variants of \<^verbatim>\<open>update\<close>: when the first fetch fails and the
  second succeeds, the loop logs the error and fetches again with no receive from the
  ticker in between; the claim has every next fetch wait for a tick.
\<close>

theorem failed_fetch_retries_without_tick:
  "trace (update default_config [Inl Transport, Inr scenario_status] updater_init)
     = [LogPerforming, Fetched, LogError Transport,
        LogPerforming, Fetched, Stored scenario_snapshot, LogComplete, TickAwaited] \<and>
   trace (update2 default_config2 [Inl Transport, Inr scenario_status2] updater2_init)
     = [LogPerforming, Fetched, LogError Transport,
        LogPerforming, Fetched, Stored scenario_snapshot2, LogComplete, DoneSent, TickAwaited]"
  by (simp add: getData_Inl getMirrorInfo_Inl scenario_getData scenario_getMirrorInfo
      updater_init_def updater2_init_def)

section \<open>The store before the first publish\<close>

lemma handlers_on_empty_store:
  "makeGlobalHandler rnd None r = ([], Some InterfaceConversion)"
  "Method r = ''GET'' \<Longrightarrow>
     redirector url_Parse url_String None sel r = ([], Some InterfaceConversion)"
  by (simp_all add: makeGlobalHandler_def redirector_def)











end
